theory Spec2Isabelle
  imports Main "HOL-Library.Sublist"
begin

section \<open>Byte strings and the Go library functions the program calls\<close>

text \<open>
  A Go string is a sequence of bytes; it is modelled as a \<^typ>\<open>string\<close>, whose characters
  are bytes. The functions of \<^verbatim>\<open>strconv\<close>, \<^verbatim>\<open>strings\<close> and \<^verbatim>\<open>fmt\<close> that
  \<^verbatim>\<open>main.go\<close> calls are written out here on bytes, for a 64-bit \<^verbatim>\<open>int\<close>.
\<close>

definition byte :: "char \<Rightarrow> nat" where
  "byte c = of_char c"

subsection \<open>strconv: ParseUint, ParseInt, Atoi\<close>

datatype num_error = ErrSyntax | ErrRange

definition maxUint64 :: nat where
  "maxUint64 = 2 ^ 64 - 1"

definition digit_val :: "char \<Rightarrow> nat option" where
  \<comment> \<open>The digit a byte stands for in \<^verbatim>\<open>ParseUint\<close>: \<^verbatim>\<open>0-9\<close>, and a letter of either case
      (\<^verbatim>\<open>lower(c) = c | 0x20\<close> lies in \<^verbatim>\<open>a..z\<close>) counted from 10.\<close>
  "digit_val c =
     (let b = byte c in
      if 48 \<le> b \<and> b \<le> 57 then Some (b - 48)
      else if 97 \<le> b \<and> b \<le> 122 then Some (b - 97 + 10)
      else if 65 \<le> b \<and> b \<le> 90 then Some (b - 65 + 10)
      else None)"

fun ParseUint_loop :: "nat \<Rightarrow> nat \<Rightarrow> string \<Rightarrow> num_error + nat" where
  "ParseUint_loop base n [] = Inr n"
| "ParseUint_loop base n (c # cs) =
     (case digit_val c of
        None \<Rightarrow> Inl ErrSyntax
      | Some d \<Rightarrow>
          if d \<ge> base then Inl ErrSyntax
          else if n * base + d > maxUint64 then Inl ErrRange
          else ParseUint_loop base (n * base + d) cs)"

definition ParseUint :: "string \<Rightarrow> nat \<Rightarrow> num_error + nat" where
  \<comment> \<open>\<^verbatim>\<open>strconv.ParseUint(s, base, 64)\<close> for a base between 2 and 36: no prefix and no
      underscore is accepted, and a value beyond 64 bits is a range error.\<close>
  "ParseUint s base = (if s = [] then Inl ErrSyntax else ParseUint_loop base 0 s)"

definition ParseInt :: "string \<Rightarrow> nat \<Rightarrow> num_error + int" where
  \<comment> \<open>\<^verbatim>\<open>strconv.ParseInt(s, base, 64)\<close>: an optional sign, then \<^verbatim>\<open>ParseUint\<close>, then the
      check against the 63-bit cutoff.\<close>
  "ParseInt s base =
     (if s = [] then Inl ErrSyntax
      else
        let neg = (hd s = CHR ''-'');
            s' = (if hd s = CHR ''+'' \<or> hd s = CHR ''-'' then tl s else s)
        in case ParseUint s' base of
             Inl e \<Rightarrow> Inl e
           | Inr un \<Rightarrow>
               if \<not> neg \<and> un \<ge> 2 ^ 63 then Inl ErrRange
               else if neg \<and> un > 2 ^ 63 then Inl ErrRange
               else Inr (if neg then - int un else int un))"

definition Atoi :: "string \<Rightarrow> num_error + int" where
  \<comment> \<open>\<^verbatim>\<open>strconv.Atoi(s)\<close> is \<^verbatim>\<open>ParseInt(s, 10, 0)\<close>; its fast path for short strings
      computes the same result.\<close>
  "Atoi s = ParseInt s 10"

subsection \<open>fmt: the verbs \<^verbatim>\<open>%d\<close>, \<^verbatim>\<open>%x\<close> and \<^verbatim>\<open>%02d\<close>\<close>

definition digit_char :: "nat \<Rightarrow> char" where
  "digit_char d = ''0123456789abcdef'' ! d"

fun fmt_nat :: "nat \<Rightarrow> nat \<Rightarrow> string" where
  "fmt_nat base n =
     (if base < 2 \<or> n < base then [digit_char n]
      else fmt_nat base (n div base) @ [digit_char (n mod base)])"

declare fmt_nat.simps [simp del]

definition fmt_int :: "nat \<Rightarrow> int \<Rightarrow> string" where
  "fmt_int base i = (if i < 0 then CHR ''-'' # fmt_nat base (nat (- i)) else fmt_nat base (nat i))"

definition fmt_d :: "int \<Rightarrow> string" where
  "fmt_d i = fmt_int 10 i"

definition fmt_x :: "int \<Rightarrow> string" where
  "fmt_x i = fmt_int 16 i"

definition fmt_02d :: "int \<Rightarrow> string" where
  \<comment> \<open>\<^verbatim>\<open>%02d\<close>: padded with a zero to width 2; a sign counts for the width.\<close>
  "fmt_02d i = (if 0 \<le> i \<and> i < 10 then CHR ''0'' # fmt_d i else fmt_d i)"

subsection \<open>strings: white space, TrimSpace, Fields, Split, Contains, TrimSuffix, case mapping\<close>

definition nl :: string where
  "nl = [CHR 0x0A]"

definition white_space :: "string list" where
  \<comment> \<open>The UTF-8 encodings of the runes for which \<^verbatim>\<open>unicode.IsSpace\<close> holds: the six ASCII
      ones, U+0085, U+00A0, U+1680, U+2000 to U+200A, U+2028, U+2029, U+202F, U+205F, U+3000.
      None of them is a prefix of another, and each starts with a byte that no other rune's
      encoding contains after its first byte, so an occurrence in a byte string is the rune.\<close>
  "white_space =
     [[CHR 0x09], [CHR 0x0A], [CHR 0x0B], [CHR 0x0C], [CHR 0x0D], [CHR 0x20],
      [CHR 0xC2, CHR 0x85], [CHR 0xC2, CHR 0xA0],
      [CHR 0xE1, CHR 0x9A, CHR 0x80],
      [CHR 0xE2, CHR 0x80, CHR 0x80], [CHR 0xE2, CHR 0x80, CHR 0x81],
      [CHR 0xE2, CHR 0x80, CHR 0x82], [CHR 0xE2, CHR 0x80, CHR 0x83],
      [CHR 0xE2, CHR 0x80, CHR 0x84], [CHR 0xE2, CHR 0x80, CHR 0x85],
      [CHR 0xE2, CHR 0x80, CHR 0x86], [CHR 0xE2, CHR 0x80, CHR 0x87],
      [CHR 0xE2, CHR 0x80, CHR 0x88], [CHR 0xE2, CHR 0x80, CHR 0x89],
      [CHR 0xE2, CHR 0x80, CHR 0x8A],
      [CHR 0xE2, CHR 0x80, CHR 0xA8], [CHR 0xE2, CHR 0x80, CHR 0xA9],
      [CHR 0xE2, CHR 0x80, CHR 0xAF], [CHR 0xE2, CHR 0x81, CHR 0x9F],
      [CHR 0xE3, CHR 0x80, CHR 0x80]]"

fun strip_runes :: "string list \<Rightarrow> string \<Rightarrow> string" where
  "strip_runes enc [] = []"
| "strip_runes enc (c # cs) =
     (case find (\<lambda>e. prefix e (c # cs)) enc of
        None \<Rightarrow> c # cs
      | Some e \<Rightarrow> strip_runes enc (drop (length e - 1) cs))"

definition TrimSpace :: "string \<Rightarrow> string" where
  \<comment> \<open>Leading white-space runes are removed, then trailing ones (read from the end, as
      \<^verbatim>\<open>DecodeLastRuneInString\<close> does).\<close>
  "TrimSpace s = rev (strip_runes (map rev white_space) (rev (strip_runes white_space s)))"

fun fields_from :: "string \<Rightarrow> string \<Rightarrow> string list" where
  "fields_from cur [] = (if cur = [] then [] else [cur])"
| "fields_from cur (c # cs) =
     (case find (\<lambda>e. prefix e (c # cs)) white_space of
        None \<Rightarrow> fields_from (cur @ [c]) cs
      | Some e \<Rightarrow> (if cur = [] then [] else [cur]) @ fields_from [] (drop (length e - 1) cs))"

definition Fields :: "string \<Rightarrow> string list" where
  "Fields s = fields_from [] s"

fun split_from :: "string \<Rightarrow> string \<Rightarrow> char \<Rightarrow> string list" where
  "split_from cur [] sep = [cur]"
| "split_from cur (c # cs) sep =
     (if c = sep then cur # split_from [] cs sep else split_from (cur @ [c]) cs sep)"

definition Split :: "string \<Rightarrow> char \<Rightarrow> string list" where
  \<comment> \<open>\<^verbatim>\<open>strings.Split(s, sep)\<close> for a separator of one byte: the pieces between the
      separators, one more than there are separators.\<close>
  "Split s sep = split_from [] s sep"

fun Contains :: "string \<Rightarrow> string \<Rightarrow> bool" where
  "Contains [] substr = (substr = [])"
| "Contains (c # cs) substr = (prefix substr (c # cs) \<or> Contains cs substr)"

definition TrimSuffix :: "string \<Rightarrow> string \<Rightarrow> string" where
  "TrimSuffix s suf =
     (if length suf \<le> length s \<and> drop (length s - length suf) s = suf
      then take (length s - length suf) s else s)"

definition upper_byte :: "char \<Rightarrow> char" where
  "upper_byte c =
     (case map_of (zip ''abcdefghijklmnopqrstuvwxyz'' ''ABCDEFGHIJKLMNOPQRSTUVWXYZ'') c of
        None \<Rightarrow> c | Some u \<Rightarrow> u)"

definition lower_byte :: "char \<Rightarrow> char" where
  "lower_byte c =
     (case map_of (zip ''ABCDEFGHIJKLMNOPQRSTUVWXYZ'' ''abcdefghijklmnopqrstuvwxyz'') c of
        None \<Rightarrow> c | Some l \<Rightarrow> l)"

fun ToUpper :: "string \<Rightarrow> string" where
  \<comment> \<open>\<^verbatim>\<open>strings.ToUpper\<close>, exact on every ASCII byte of the result: ASCII letters are
      mapped, and the only other runes whose upper case is ASCII are U+0131 (to \<^verbatim>\<open>I\<close>) and
      U+017F (to \<^verbatim>\<open>S\<close>). Every other non-ASCII rune, and every invalid byte, becomes
      bytes from \<^verbatim>\<open>0x80\<close> up in Go; the model leaves such bytes as they are. The program
      only searches the result for ASCII words.\<close>
  "ToUpper [] = []"
| "ToUpper (c # cs) =
     (if prefix [CHR 0xC4, CHR 0xB1] (c # cs) then CHR ''I'' # ToUpper (drop 1 cs)
      else if prefix [CHR 0xC5, CHR 0xBF] (c # cs) then CHR ''S'' # ToUpper (drop 1 cs)
      else upper_byte c # ToUpper cs)"

fun ToLower :: "string \<Rightarrow> string" where
  \<comment> \<open>\<^verbatim>\<open>strings.ToLower\<close>, in the same way: besides the ASCII letters only U+0130 (to
      \<^verbatim>\<open>i\<close>) and U+212A (to \<^verbatim>\<open>k\<close>) have an ASCII lower case. The program only compares
      the result with an ASCII word.\<close>
  "ToLower [] = []"
| "ToLower (c # cs) =
     (if prefix [CHR 0xC4, CHR 0xB0] (c # cs) then CHR ''i'' # ToLower (drop 1 cs)
      else if prefix [CHR 0xE2, CHR 0x84, CHR 0xAA] (c # cs) then CHR ''k'' # ToLower (drop 2 cs)
      else lower_byte c # ToLower cs)"

section \<open>The outside world: the external tool, standard output, the process\<close>

text \<open>
  The program talks to the world by running \<^verbatim>\<open>ipmitool\<close>, by writing to standard output
  and by leaving through \<^verbatim>\<open>os.Exit\<close>. A run is modelled by the sequence of these events.
  The answers of the tool, the result of \<^verbatim>\<open>exec.LookPath\<close>, the floating-point functions
  \<^verbatim>\<open>strconv.ParseFloat(_, 64)\<close> and \<^verbatim>\<open>fmt.Sprintf("%.0f", _)\<close>, and the order in which Go
  visits the keys of the two maps that \<^verbatim>\<open>testrun\<close> ranges over are parameters of the model,
  collected in a \<open>host\<close>; \<open>'f\<close> stands for \<^verbatim>\<open>float64\<close>.
\<close>

record ThermalStatus =
  Name :: string
  Value :: string

record FanStatus =
  Name :: string
  RPM :: string
  PWM :: string

record StatusReport =
  Fans :: "FanStatus list"
  Thermals :: "ThermalStatus list"

datatype tool_result =
    Failed string string   \<comment> \<open>the text of the error, and the output captured\<close>
  | Succeeded string       \<comment> \<open>the output captured\<close>

datatype call_site = InGetPWMs | InGetSpeed | InSetSpeed | InGetStatus

datatype event =
    Invoke call_site "string list" tool_result
      \<comment> \<open>the function that ran the tool, the command line, and how the tool answered\<close>
  | Print string
      \<comment> \<open>text written to standard output by \<^verbatim>\<open>Println\<close> or \<^verbatim>\<open>Printf\<close>\<close>
  | Render bool StatusReport
      \<comment> \<open>the report written by the last part of \<^verbatim>\<open>getStatus\<close>: as JSON when the flag is
          set, as the two tables otherwise\<close>

datatype outcome = Returned | Exited int

record world =
  ncalls :: nat
  events :: "event list"

record 'f host =
  lookPath :: bool
    \<comment> \<open>whether \<^verbatim>\<open>exec.LookPath("ipmitool")\<close> finds the tool\<close>
  tool :: "nat \<Rightarrow> string list \<Rightarrow> tool_result"
    \<comment> \<open>the answer to the \<open>n\<close>-th run of the tool (from 0) with the given command line\<close>
  ParseFloat :: "string \<Rightarrow> 'f option"
    \<comment> \<open>\<^verbatim>\<open>strconv.ParseFloat(s, 64)\<close>; \<open>None\<close> when it returns an error\<close>
  Sprintf_0f :: "'f \<Rightarrow> string"
    \<comment> \<open>\<^verbatim>\<open>fmt.Sprintf("%.0f", f)\<close>\<close>
  range_fanIDs :: "(string \<times> string) list"
    \<comment> \<open>the entries of \<^verbatim>\<open>fanIDs\<close> in the order \<^verbatim>\<open>range\<close> visits them\<close>
  range_saved :: "string list"
    \<comment> \<open>the fan ids in the order \<^verbatim>\<open>range savedSpeeds\<close> visits those that are keys\<close>

definition init_world :: world where
  "init_world = \<lparr>ncalls = 0, events = []\<rparr>"

definition emit :: "event \<Rightarrow> world \<Rightarrow> world" where
  "emit e w = w\<lparr>events := events w @ [e]\<rparr>"

definition println :: "string \<Rightarrow> world \<Rightarrow> world" where
  "println s w = emit (Print (s @ nl)) w"

definition exec :: "'f host \<Rightarrow> call_site \<Rightarrow> string list \<Rightarrow> world \<Rightarrow> tool_result \<times> world" where
  "exec h site cmdline w =
     (let res = tool h (ncalls w) cmdline
      in (res, w\<lparr>ncalls := Suc (ncalls w), events := events w @ [Invoke site cmdline res]\<rparr>))"

definition ipmiRaw :: "'f host \<Rightarrow> call_site \<Rightarrow> string list \<Rightarrow> world \<Rightarrow> (string + string) \<times> world" where
  "ipmiRaw h site args w =
     (let fullArgs = [''raw'', ''0x2e''] @ args
      in case exec h site (''ipmitool'' # fullArgs) w of
           (Failed err out, w') \<Rightarrow> (Inl (err @ '': '' @ out), w')
         | (Succeeded out, w') \<Rightarrow> (Inr out, w'))"

definition lookup :: "(string \<rightharpoonup> string) \<Rightarrow> string \<Rightarrow> string" where
  \<comment> \<open>Reading a Go map: a missing key gives the empty string.\<close>
  "lookup m k = (case m k of None \<Rightarrow> [] | Some v \<Rightarrow> v)"

section \<open>The value decoder\<close>

definition hexToPercent :: "string \<Rightarrow> string" where
  "hexToPercent hexStr =
     (case ParseInt hexStr 16 of
        Inl err \<Rightarrow> ''N/A''
      | Inr dec \<Rightarrow> fmt_d dec @ ''%'')"

definition getPWMs :: "'f host \<Rightarrow> world \<Rightarrow> (string \<rightharpoonup> string) \<times> world" where
  "getPWMs h w =
     (case ipmiRaw h InGetPWMs [''0x31''] w of
        (Inl err, w') \<Rightarrow> (Map.empty, w')
      | (Inr out, w') \<Rightarrow>
          (let parts = Fields out
           in if length parts \<ge> 7
              then (Map.empty
                      (''System Fan1'' \<mapsto> hexToPercent (parts ! 1),
                       ''System Fan2'' \<mapsto> hexToPercent (parts ! 2),
                       ''System Fan3'' \<mapsto> hexToPercent (parts ! 3),
                       ''System Fan4'' \<mapsto> hexToPercent (parts ! 4),
                       ''CPU Fan1'' \<mapsto> hexToPercent (parts ! 5),
                       ''CPU Fan2'' \<mapsto> hexToPercent (parts ! 6)), w')
              else (Map.empty, w')))"

section \<open>The subcommands\<close>

definition getSpeed :: "'f host \<Rightarrow> string \<Rightarrow> world \<Rightarrow> outcome \<times> world" where
  "getSpeed h idStr w =
     (if ToLower idStr = ''all'' \<or> idStr = ''0'' \<or> idStr = ''00''
      then (Returned, println ''Error: To view all fans, use the 'status' command.'' w)
      else case Atoi idStr of
        Inl err \<Rightarrow> (Returned, println ''Error: Fan ID must be between 01 and 06'' w)
      | Inr fid \<Rightarrow>
          if fid < 1 \<or> fid > 6
          then (Returned, println ''Error: Fan ID must be between 01 and 06'' w)
          else case ipmiRaw h InGetSpeed [''0x31''] w of
            (Inl err, w') \<Rightarrow> (Exited 1, emit (Print (''IPMI Error: '' @ err @ nl)) w')
          | (Inr out, w') \<Rightarrow>
              (let parts = Fields out
               in if int (length parts) > fid
                  then (let pwm = hexToPercent (parts ! nat fid)
                        in (Returned,
                            emit (Print (''Fan '' @ fmt_02d fid @ '' PWM: '' @ pwm @ nl)) w'))
                  else (Returned,
                        println ''Error: Unexpected IPMI response format or missing data'' w')))"

definition setSpeed :: "'f host \<Rightarrow> string \<Rightarrow> string \<Rightarrow> world \<Rightarrow> outcome \<times> world" where
  "setSpeed h idStr speedStr w =
     (case Atoi speedStr of
        Inl err \<Rightarrow> (Returned, println ''Error: Speed must be an integer between 0 and 100'' w)
      | Inr speed \<Rightarrow>
          if speed < 0 \<or> speed > 100
          then (Returned, println ''Error: Speed must be an integer between 0 and 100'' w)
          else
            (let hexSpeed = ''0x'' @ fmt_x speed;
                 isAll = (ToLower idStr = ''all'' \<or> idStr = ''0'' \<or> idStr = ''00'');
                 formattedID = (if isAll then ''00''
                                else if length idStr = 1 then ''0'' @ idStr
                                else idStr)
             in case ipmiRaw h InSetSpeed [''0x30'', ''00'', formattedID, hexSpeed] w of
                  (Inl err, w') \<Rightarrow> (Exited 1, emit (Print (''IPMI Error: '' @ err @ nl)) w')
                | (Inr out, w') \<Rightarrow>
                    if isAll
                    then (Returned,
                          emit (Print (''All fans successfully set to '' @ fmt_d speed @ ''%'' @ nl)) w')
                    else (Returned,
                          emit (Print (''Fan '' @ formattedID @ '' successfully set to ''
                                       @ fmt_d speed @ ''%'' @ nl)) w')))"

definition degC :: string where
  \<comment> \<open>The degree sign U+00B0 in UTF-8, then \<^verbatim>\<open>C\<close>.\<close>
  "degC = [CHR 0xC2, CHR 0xB0, CHR ''C'']"

definition fanNames :: "string list" where
  "fanNames =
     [''System Fan1'', ''System Fan2'', ''System Fan3'', ''System Fan4'', ''CPU Fan1'', ''CPU Fan2'']"

definition scanLine ::
  "'f host \<Rightarrow> (string \<rightharpoonup> string) \<times> ThermalStatus list \<Rightarrow> string
     \<Rightarrow> (string \<rightharpoonup> string) \<times> ThermalStatus list" where
  \<comment> \<open>One round of the loop over the lines of the sensor list; \<^verbatim>\<open>continue\<close> leaves the
      state as it is.\<close>
  "scanLine h st line =
     (let (rpmMap, thermals) = st
      in if TrimSpace line = [] then st
         else
           let parts = Split line (CHR ''|'')
           in if length parts < 3 then st
              else
                let name = TrimSpace (parts ! 0);
                    val = TrimSpace (parts ! 1);
                    unit = TrimSpace (parts ! 2);
                    lineUpper = ToUpper line
                in if val = ''na'' \<and> \<not> Contains lineUpper ''FAN'' then st
                   else if Contains lineUpper ''FAN'' \<and> \<not> Contains lineUpper ''POWER''
                   then (if val \<noteq> ''na'' then (rpmMap(name \<mapsto> val @ '' RPM''), thermals) else st)
                   else if Contains lineUpper ''TEMP'' \<or> Contains lineUpper ''AIRFLOW''
                   then
                     (let cleanVal = (case ParseFloat h val of
                                        None \<Rightarrow> val
                                      | Some valFloat \<Rightarrow> Sprintf_0f h valFloat);
                          cleanUnit = (if unit = ''degrees C'' then degC else unit)
                      in if cleanVal = ''0'' \<and> cleanUnit = degC then st
                         else (rpmMap,
                               thermals @ [\<lparr>ThermalStatus.Name = name,
                                             Value = cleanVal @ '' '' @ cleanUnit\<rparr>]))
                   else st)"

definition fanEntry :: "(string \<rightharpoonup> string) \<Rightarrow> (string \<rightharpoonup> string) \<Rightarrow> string \<Rightarrow> FanStatus" where
  \<comment> \<open>One round of the loop that builds the six fan entries.\<close>
  "fanEntry pwms rpmMap name =
     (let pwm = (if lookup pwms name = [] then ''N/A'' else lookup pwms name);
          rpm = (if lookup rpmMap name = [] then ''N/A'' else lookup rpmMap name)
      in \<lparr>Name = name, RPM = rpm, PWM = pwm\<rparr>)"

definition getStatus :: "'f host \<Rightarrow> bool \<Rightarrow> world \<Rightarrow> world" where
  "getStatus h asJson w =
     (let (pwms, w1) = getPWMs h w
      in case exec h InGetStatus [''ipmitool'', ''sensor'', ''list''] w1 of
           (Failed err out, w2) \<Rightarrow> emit (Print (''Error fetching sensor data: '' @ err @ nl)) w2
         | (Succeeded out, w2) \<Rightarrow>
             (let lines = Split out (CHR 0x0A);
                  (rpmMap, thermals) = foldl (scanLine h) (Map.empty, []) lines;
                  fans = map (fanEntry pwms rpmMap) fanNames
              in emit (Render asJson \<lparr>Fans = fans, Thermals = thermals\<rparr>) w2))"

section \<open>The dispatcher\<close>

definition fanIDs :: "(string \<times> string) list" where
  "fanIDs =
     [(''System Fan1'', ''01''), (''System Fan2'', ''02''), (''System Fan3'', ''03''),
      (''System Fan4'', ''04''), (''CPU Fan1'', ''05''), (''CPU Fan2'', ''06'')]"

fun saveSpeeds ::
  "(string \<rightharpoonup> string) \<Rightarrow> (string \<times> string) list \<Rightarrow> (string \<rightharpoonup> string) \<times> world
     \<Rightarrow> (string \<rightharpoonup> string) \<times> world" where
  "saveSpeeds originalPWMs [] st = st"
| "saveSpeeds originalPWMs ((name, fid) # rest) (savedSpeeds, w) =
     (let pwmStr = lookup originalPWMs name
      in if pwmStr \<noteq> ''N/A'' \<and> pwmStr \<noteq> []
         then (let speedVal = TrimSuffix pwmStr ''%''
               in saveSpeeds originalPWMs rest
                    (savedSpeeds(fid \<mapsto> speedVal),
                     emit (Print (''    ID '' @ fid @ '' ('' @ name @ '') backed up at ''
                                  @ speedVal @ ''%'' @ nl)) w))
         else saveSpeeds originalPWMs rest (savedSpeeds, w))"

fun restoreSpeeds :: "'f host \<Rightarrow> (string \<times> string) list \<Rightarrow> world \<Rightarrow> outcome \<times> world" where
  "restoreSpeeds h [] w = (Returned, w)"
| "restoreSpeeds h ((fid, speed) # rest) w =
     (case setSpeed h fid speed w of
        (Exited c, w') \<Rightarrow> (Exited c, w')
      | (Returned, w') \<Rightarrow> restoreSpeeds h rest w')"

definition saved_entries :: "'f host \<Rightarrow> (string \<rightharpoonup> string) \<Rightarrow> (string \<times> string) list" where
  \<comment> \<open>The entries of \<^verbatim>\<open>savedSpeeds\<close> in the order \<^verbatim>\<open>range\<close> visits them.\<close>
  "saved_entries h savedSpeeds =
     List.map_filter (\<lambda>fid. map_option (Pair fid) (savedSpeeds fid)) (range_saved h)"

definition testrun :: "'f host \<Rightarrow> world \<Rightarrow> outcome \<times> world" where
  "testrun h w =
     (let w0 = println ''[STEP 0] Saving current fan speeds...''
                 (println ''--- STARTING AUTOMATED TEST SEQUENCE ---'' w);
          (originalPWMs, w1) = getPWMs h w0;
          (savedSpeeds, w2) = saveSpeeds originalPWMs (range_fanIDs h) (Map.empty, w1);
          w3 = println (nl @ ''[STEP 1] Testing 'set all' command (setting to 40%)...'') w2
      in case setSpeed h ''all'' ''40'' w3 of
           (Exited c, w4) \<Rightarrow> (Exited c, w4)
         | (Returned, w4) \<Rightarrow>
             (case getSpeed h ''01''
                     (println (nl @ ''[STEP 2] Testing 'get' command for Fan 01...'') w4) of
                (Exited c, w5) \<Rightarrow> (Exited c, w5)
              | (Returned, w5) \<Rightarrow>
                  (let w6 = getStatus h False
                              (println (nl @ ''[STEP 3] Displaying full status dashboard...'') w5);
                       w7 = println (nl @ ''[STEP 4] Restoring original fan speeds...'') w6
                   in case restoreSpeeds h (saved_entries h savedSpeeds) w7 of
                        (Exited c, w8) \<Rightarrow> (Exited c, w8)
                      | (Returned, w8) \<Rightarrow>
                          (Returned, println (nl @ ''--- TEST SEQUENCE COMPLETE ---'') w8))))"

definition usage :: "world \<Rightarrow> world" where
  "usage w =
     println ''  rd450x-fan-control set <id|all> <speed>''
       (println ''  rd450x-fan-control get <id>''
          (println ''  rd450x-fan-control status [--json]''
             (println ''Usage:'' w)))"

definition main :: "'f host \<Rightarrow> string list \<Rightarrow> outcome \<times> world" where
  \<comment> \<open>\<^verbatim>\<open>main\<close>, run on \<^verbatim>\<open>os.Args\<close>, from the initial world.\<close>
  "main h args =
     (let w = init_world
      in if \<not> lookPath h
         then (Exited 1,
               println ''Error: 'ipmitool' not found in PATH. Install it via: apt install ipmitool'' w)
         else if length args < 2 then (Returned, usage w)
         else if args ! 1 = ''status''
         then (let isJson = (length args > 2 \<and> args ! 2 = ''--json'')
               in (Returned, getStatus h isJson w))
         else if args ! 1 = ''get''
         then (if length args < 3
               then (Returned,
                     println ''Error: Missing arguments. Example: rd450x-fan-control get 01'' w)
               else getSpeed h (args ! 2) w)
         else if args ! 1 = ''set''
         then (if length args < 4
               then (Returned,
                     println ''Error: Missing arguments. Example: rd450x-fan-control set all 50'' w)
               else setSpeed h (args ! 2) (args ! 3) w)
         else if args ! 1 = ''testrun'' then testrun h w
         else (Returned,
               emit (Print (''Error: Unknown command '' @ [CHR 0x27] @ args ! 1 @ [CHR 0x27] @ nl)) w))"

definition exit_code :: "outcome \<Rightarrow> int" where
  \<comment> \<open>The exit status of the process: 0 when \<^verbatim>\<open>main\<close> returns.\<close>
  "exit_code r = (case r of Returned \<Rightarrow> 0 | Exited c \<Rightarrow> c)"

section \<open>What a written integer is\<close>

text \<open>
  The integers that \<^verbatim>\<open>ParseInt\<close> accepts, said without the loop: an optional sign, then
  at least one digit, every digit below the base, and a value that fits 64 bits signed.
\<close>

definition is_digits :: "nat \<Rightarrow> string \<Rightarrow> bool" where
  "is_digits base ds =
     (ds \<noteq> [] \<and> list_all (\<lambda>c. case digit_val c of None \<Rightarrow> False | Some d \<Rightarrow> d < base) ds)"

definition digits_val :: "nat \<Rightarrow> nat \<Rightarrow> string \<Rightarrow> nat" where
  "digits_val base n ds = foldl (\<lambda>a c. a * base + the (digit_val c)) n ds"

definition int_literal :: "nat \<Rightarrow> string \<Rightarrow> int option" where
  "int_literal base s =
     (case s of
        [] \<Rightarrow> None
      | c # cs \<Rightarrow>
          (let neg = (c = CHR ''-'');
               ds = (if c = CHR ''+'' \<or> c = CHR ''-'' then cs else s);
               v = digits_val base 0 ds
           in if is_digits base ds \<and> (if neg then v \<le> 2 ^ 63 else v < 2 ^ 63)
              then Some (if neg then - int v else int v)
              else None))"

section \<open>Notions used to state the properties\<close>

definition added :: "world \<Rightarrow> world \<Rightarrow> event list" where
  \<comment> \<open>The events of \<open>w'\<close> that come after those of \<open>w\<close>.\<close>
  "added w w' = drop (length (events w)) (events w')"

definition is_invoke :: "event \<Rightarrow> bool" where
  "is_invoke e = (case e of Invoke site cmdline res \<Rightarrow> True | _ \<Rightarrow> False)"

definition is_render :: "event \<Rightarrow> bool" where
  "is_render e = (case e of Render asJson report \<Rightarrow> True | _ \<Rightarrow> False)"

definition read_command :: "string list" where
  "read_command = [''ipmitool'', ''raw'', ''0x2e'', ''0x31'']"

definition write_command :: "string \<Rightarrow> int \<Rightarrow> string list" where
  \<comment> \<open>The command line of the raw write for a fan id and a percentage.\<close>
  "write_command fid v = [''ipmitool'', ''raw'', ''0x2e'', ''0x30'', ''00'', fid, ''0x'' @ fmt_x v]"

definition sensor_command :: "string list" where
  "sensor_command = [''ipmitool'', ''sensor'', ''list'']"

definition for_all :: "string \<Rightarrow> bool" where
  \<comment> \<open>The ids that stand for all fans.\<close>
  "for_all idStr = (ToLower idStr = ''all'' \<or> idStr = ''0'' \<or> idStr = ''00'')"

definition formattedID :: "string \<Rightarrow> string" where
  \<comment> \<open>The fan id that \<^verbatim>\<open>setSpeed\<close> hands to the tool.\<close>
  "formattedID idStr =
     (if for_all idStr then ''00'' else if length idStr = 1 then ''0'' @ idStr else idStr)"

definition field :: "nat \<Rightarrow> string \<Rightarrow> string" where
  \<comment> \<open>The \<open>i\<close>-th field of a row of the sensor list, trimmed.\<close>
  "field i line = TrimSpace (Split line (CHR ''|'') ! i)"

definition has_word :: "string \<Rightarrow> string \<Rightarrow> bool" where
  \<comment> \<open>The line contains the word, in any case of its letters.\<close>
  "has_word word line = Contains (ToUpper line) word"

definition thermal_row :: "string \<Rightarrow> bool" where
  \<comment> \<open>The rows that reach the thermal branch of the loop: not blank, at least three fields,
      not skipped for the value \<open>na\<close>, not taken as a fan row, and with one of the two
      thermal words.\<close>
  "thermal_row line =
     (TrimSpace line \<noteq> [] \<and> 3 \<le> length (Split line (CHR ''|''))
      \<and> \<not> (field 1 line = ''na'' \<and> \<not> has_word ''FAN'' line)
      \<and> \<not> (has_word ''FAN'' line \<and> \<not> has_word ''POWER'' line)
      \<and> (has_word ''TEMP'' line \<or> has_word ''AIRFLOW'' line))"

definition cleanVal :: "'f host \<Rightarrow> string \<Rightarrow> string" where
  \<comment> \<open>The value of a thermal row as the loop normalizes it.\<close>
  "cleanVal h val = (case ParseFloat h val of None \<Rightarrow> val | Some valFloat \<Rightarrow> Sprintf_0f h valFloat)"

definition cleanUnit :: "string \<Rightarrow> string" where
  \<comment> \<open>The unit of a thermal row as the loop normalizes it.\<close>
  "cleanUnit unit = (if unit = ''degrees C'' then degC else unit)"

definition set_calls :: "event list \<Rightarrow> string list list" where
  \<comment> \<open>The command lines of the runs of the tool made by \<open>setSpeed\<close>, in order.\<close>
  "set_calls es =
     List.map_filter
       (\<lambda>e. case e of
               Invoke site cmdline res \<Rightarrow> if site = InSetSpeed then Some cmdline else None
             | _ \<Rightarrow> None) es"

definition pwm_reading :: "tool_result \<Rightarrow> nat \<Rightarrow> int option" where
  \<comment> \<open>The percentage that an answer to the raw read gives for the fan at position \<open>k\<close> (from
      1 to 6); \<open>None\<close> when the read failed, has fewer than seven fields, or the field is
      not a written base-16 integer, which are the cases where the fan shows \<open>N/A\<close>.\<close>
  "pwm_reading res k =
     (case res of
        Failed err out \<Rightarrow> None
      | Succeeded out \<Rightarrow>
          if 7 \<le> length (Fields out) then int_literal 16 (Fields out ! k) else None)"

definition fatal :: "event \<Rightarrow> bool" where
  \<comment> \<open>A run of the tool made by \<open>getSpeed\<close> or \<open>setSpeed\<close> that failed.\<close>
  "fatal e =
     (case e of
        Invoke site cmdline (Failed err out) \<Rightarrow> site = InGetSpeed \<or> site = InSetSpeed
      | _ \<Rightarrow> False)"

definition and_then :: "outcome \<times> world \<Rightarrow> (world \<Rightarrow> outcome \<times> world) \<Rightarrow> outcome \<times> world" where
  \<comment> \<open>One call after another: \<^verbatim>\<open>os.Exit\<close> in the first ends the run.\<close>
  "and_then r f = (case r of (Exited c, w) \<Rightarrow> (Exited c, w) | (Returned, w) \<Rightarrow> f w)"

definition quiet :: "world \<Rightarrow> world \<Rightarrow> bool" where
  \<comment> \<open>From \<open>w\<close> to \<open>w'\<close> events were added, none of them fatal.\<close>
  "quiet w w' = (\<exists>es. events w' = events w @ es \<and> \<not> list_ex fatal es)"

definition run_ok :: "world \<Rightarrow> outcome \<times> world \<Rightarrow> bool" where
  \<comment> \<open>From \<open>w\<close> events were added, and the run left through \<^verbatim>\<open>os.Exit(1)\<close> exactly when one
      of them is fatal.\<close>
  "run_ok w r =
     (\<exists>es. events (snd r) = events w @ es
           \<and> (case fst r of
                 Returned \<Rightarrow> \<not> list_ex fatal es
               | Exited c \<Rightarrow> c = 1 \<and> list_ex fatal es))"

definition extends :: "world \<Rightarrow> world \<Rightarrow> string list list \<Rightarrow> bool" where
  \<comment> \<open>From \<open>w\<close> to \<open>w'\<close> events were added, and \<open>setSpeed\<close> ran the tool with the command
      lines \<open>cs\<close>.\<close>
  "extends w w' cs = (\<exists>es. events w' = events w @ es \<and> set_calls es = cs)"

definition fan_table :: "(string \<times> string \<times> nat) list" where
  \<comment> \<open>Each fan: its name, its id in \<^verbatim>\<open>fanIDs\<close>, and the position of its field in the
      answer to the raw read.\<close>
  "fan_table = zip fanNames (zip (map snd fanIDs) [1, 2, 3, 4, 5, 6])"

definition restore_call :: "tool_result \<Rightarrow> string \<Rightarrow> string list option" where
  \<comment> \<open>The write that restores the fan with the given id after the test, given the answer
      to the raw read made before the test: there is one when the fan had a reading, and
      the reading lies between 0 and 100.\<close>
  "restore_call res fid =
     (case map_of (map snd fan_table) fid of
        None \<Rightarrow> None
      | Some k \<Rightarrow>
          (case pwm_reading res k of
             None \<Rightarrow> None
           | Some v \<Rightarrow> if 0 \<le> v \<and> v \<le> 100 then Some (write_command fid v) else None))"

definition set_call :: "string \<times> string \<Rightarrow> string list list" where
  \<comment> \<open>The command lines with which \<open>setSpeed\<close> runs the tool on an id and a speed: one, or
      none when the speed is turned away.\<close>
  "set_call p =
     (case int_literal 10 (snd p) of
        None \<Rightarrow> []
      | Some v \<Rightarrow> if 0 \<le> v \<and> v \<le> 100 then [write_command (formattedID (fst p)) v] else [])"

definition sample_pwm_output :: string where
  "sample_pwm_output = '' 00 32 46 ff zz 1e 64'' @ nl"

definition sample_sensor_output :: string where
  "sample_sensor_output =
     ''System Fan1 | 1558.000 | RPM | ok'' @ nl
     @ ''CPU Fan1 | na | RPM | na'' @ nl
     @ ''CPU1 Temp | 0.0 | degrees C | ok'' @ nl
     @ ''PCH Temp | 41 | degrees C | ok'' @ nl
     @ ''Airflow rate | 0.0 | CFM | ok'' @ nl"

definition sample_tool :: "nat \<Rightarrow> string list \<Rightarrow> tool_result" where
  \<comment> \<open>A tool for the examples: the raw read answers seven bytes, the sensor list five rows,
      a write answers nothing.\<close>
  "sample_tool n cmdline =
     (if cmdline = read_command then Succeeded sample_pwm_output
      else if cmdline = sensor_command then Succeeded sample_sensor_output
      else Succeeded [])"

definition sample_ParseFloat :: "string \<Rightarrow> int option" where
  \<comment> \<open>\<^verbatim>\<open>ParseFloat\<close> on the few strings the examples need, where its result is a whole
      number: \<open>0.0\<close>, and the unsigned decimal integers up to \<open>2 ^ 53\<close>. On every other
      string this sample gives \<open>None\<close>.\<close>
  "sample_ParseFloat s =
     (if s = ''0.0'' then Some 0
      else if is_digits 10 s \<and> digits_val 10 0 s \<le> 2 ^ 53 then Some (int (digits_val 10 0 s))
      else None)"

definition sample_host :: "int host" where
  \<comment> \<open>A host for the examples; \<^verbatim>\<open>%.0f\<close> prints a whole number in decimal.\<close>
  "sample_host =
     \<lparr>lookPath = True,
      tool = sample_tool,
      ParseFloat = sample_ParseFloat,
      Sprintf_0f = fmt_d,
      range_fanIDs = fanIDs,
      range_saved = rev (map snd fanIDs)\<rparr>"

definition failing_host :: "int host" where
  \<comment> \<open>The same host with a tool that fails on every run.\<close>
  "failing_host =
     sample_host\<lparr>tool := (\<lambda>n cmdline. Failed ''exit status 1'' ''Could not open device'')\<rparr>"

definition blind_host :: "int host" where
  \<comment> \<open>The same host with a tool whose raw read fails.\<close>
  "blind_host =
     sample_host\<lparr>tool := (\<lambda>n cmdline. if cmdline = read_command
                                      then Failed ''exit status 1'' ''Unable to send RAW command''
                                      else sample_tool n cmdline)\<rparr>"

section \<open>Properties\<close>

lemma hexToPercent_32: "hexToPercent ''32'' = ''50%''"
  by (simp add: hexToPercent_def ParseInt_def ParseUint_def digit_val_def byte_def maxUint64_def
      fmt_d_def fmt_int_def fmt_nat.simps digit_char_def)

lemma hexToPercent_zz: "hexToPercent ''zz'' = ''N/A''"
  by (simp add: hexToPercent_def ParseInt_def ParseUint_def digit_val_def byte_def)

lemma hexToPercent_ff: "hexToPercent ''ff'' = ''255%''"
  by (simp add: hexToPercent_def ParseInt_def ParseUint_def digit_val_def byte_def maxUint64_def
      fmt_d_def fmt_int_def fmt_nat.simps digit_char_def)

subsection \<open>Written integers and the parsing loop\<close>

lemma digits_val_mono:
  assumes "1 \<le> base"
  shows "n \<le> digits_val base n ds"
  using assms
proof (induction ds arbitrary: n)
  case Nil
  then show ?case by (simp add: digits_val_def)
next
  case (Cons c cs)
  have "n \<le> n * base + the (digit_val c)" using Cons.prems by (cases base) auto
  also have "\<dots> \<le> digits_val base (n * base + the (digit_val c)) cs"
    using Cons.IH [OF Cons.prems] .
  finally show ?case by (simp add: digits_val_def)
qed

lemma ParseUint_loop_Inr:
  assumes "1 \<le> base" "n \<le> maxUint64"
  shows "ParseUint_loop base n ds = Inr m \<longleftrightarrow>
         list_all (\<lambda>c. case digit_val c of None \<Rightarrow> False | Some d \<Rightarrow> d < base) ds
         \<and> digits_val base n ds = m \<and> m \<le> maxUint64"
  using assms(2)
proof (induction ds arbitrary: n)
  case Nil
  then show ?case by (auto simp: digits_val_def)
next
  case (Cons c cs)
  show ?case
  proof (cases "digit_val c")
    case None
    then show ?thesis by simp
  next
    case (Some d)
    have step: "digits_val base n (c # cs) = digits_val base (n * base + d) cs"
      using Some by (simp add: digits_val_def)
    show ?thesis
    proof (cases "d < base")
      case False
      then show ?thesis using Some by simp
    next
      case True
      show ?thesis
      proof (cases "n * base + d > maxUint64")
        case over: True
        have "n * base + d \<le> digits_val base (n * base + d) cs"
          by (rule digits_val_mono [OF assms(1)])
        then show ?thesis using Some True over step by auto
      next
        case False
        then have le: "n * base + d \<le> maxUint64" by simp
        show ?thesis using Some True False step Cons.IH [OF le] by simp
      qed
    qed
  qed
qed

lemma ParseInt_literal:
  assumes "1 \<le> base"
  shows "ParseInt s base = Inr v \<longleftrightarrow> int_literal base s = Some v"
proof (cases s)
  case Nil
  then show ?thesis by (simp add: ParseInt_def int_literal_def)
next
  case (Cons c cs)
  define ds where "ds = (if c = CHR ''+'' \<or> c = CHR ''-'' then cs else s)"
  have max: "(2::nat) ^ 63 \<le> maxUint64" by (simp add: maxUint64_def)
  have U: "ParseUint ds base = Inr m \<longleftrightarrow>
           is_digits base ds \<and> digits_val base 0 ds = m \<and> m \<le> maxUint64" for m
    using ParseUint_loop_Inr [OF assms, of 0 ds m]
    by (auto simp: ParseUint_def is_digits_def)
  show ?thesis
  proof (cases "ParseUint ds base")
    case (Inl e)
    then have "\<not> (is_digits base ds \<and> digits_val base 0 ds \<le> maxUint64)"
      using U by auto
    then show ?thesis using Inl Cons max
      by (auto simp: ParseInt_def int_literal_def ds_def Let_def)
  next
    case (Inr m)
    then have "is_digits base ds" "digits_val base 0 ds = m" using U by auto
    then show ?thesis using Inr Cons
      by (auto simp: ParseInt_def int_literal_def ds_def Let_def)
  qed
qed

lemma ParseInt_literal_None:
  assumes "1 \<le> base"
  shows "(\<exists>e. ParseInt s base = Inl e) \<longleftrightarrow> int_literal base s = None"
proof (cases "ParseInt s base")
  case (Inl e)
  then show ?thesis
    using ParseInt_literal [OF assms, of s] by (cases "int_literal base s") auto
next
  case (Inr v)
  then show ?thesis using ParseInt_literal [OF assms, of s v] by simp
qed

lemma fmt_d_percent_not_NA: "fmt_d v @ ''%'' \<noteq> ''N/A''"
proof
  assume "fmt_d v @ ''%'' = ''N/A''"
  then have "last (fmt_d v @ ''%'') = last ''N/A''" by simp
  then show False by simp
qed

subsection \<open>hexToPercent\<close>

text \<open>
  C4. For every string \<open>s\<close>, \<open>hexToPercent s\<close> is \<open>N/A\<close> exactly when \<open>s\<close> is not a
  written base-16 integer (the parse fails), and otherwise it is the decimal rendering of
  the parsed value followed by \<open>%\<close>, whatever the value: nothing is validated or clamped,
  so \<open>ff\<close> gives \<open>255%\<close>. In particular \<open>32\<close> gives \<open>50%\<close> and \<open>zz\<close> gives \<open>N/A\<close>.
\<close>

theorem hexToPercent_spec:
  "hexToPercent s = (case int_literal 16 s of None \<Rightarrow> ''N/A'' | Some v \<Rightarrow> fmt_d v @ ''%'')
   \<and> (hexToPercent s = ''N/A'' \<longleftrightarrow> int_literal 16 s = None)
   \<and> (hexToPercent s = ''N/A'' \<longleftrightarrow> (\<exists>e. ParseInt s 16 = Inl e))
   \<and> hexToPercent ''32'' = ''50%''
   \<and> hexToPercent ''zz'' = ''N/A''
   \<and> hexToPercent ''ff'' = ''255%''"
proof -
  have eq: "hexToPercent s =
            (case int_literal 16 s of None \<Rightarrow> ''N/A'' | Some v \<Rightarrow> fmt_d v @ ''%'')"
  proof (cases "ParseInt s 16")
    case (Inl e)
    then have "int_literal 16 s = None"
      using ParseInt_literal_None [of 16 s] by auto
    then show ?thesis using Inl by (simp add: hexToPercent_def)
  next
    case (Inr v)
    then have "int_literal 16 s = Some v" using ParseInt_literal [of 16 s v] by simp
    then show ?thesis using Inr by (simp add: hexToPercent_def)
  qed
  have iff: "hexToPercent s = ''N/A'' \<longleftrightarrow> int_literal 16 s = None"
    using eq fmt_d_percent_not_NA by (cases "int_literal 16 s") auto
  have iff': "hexToPercent s = ''N/A'' \<longleftrightarrow> (\<exists>e. ParseInt s 16 = Inl e)"
    using iff ParseInt_literal_None [of 16 s] by simp
  show ?thesis
    using eq iff iff' hexToPercent_32 hexToPercent_zz hexToPercent_ff by blast
qed

theorem hexToPercent_spec_witness:
  "int_literal 16 ''64'' = Some 100 \<and> hexToPercent ''64'' = ''100%''
   \<and> int_literal 16 ''0x32'' = None \<and> hexToPercent ''0x32'' = ''N/A''"
  using hexToPercent_spec [of "''64''"] hexToPercent_spec [of "''0x32''"]
  by (simp add: int_literal_def is_digits_def digits_val_def digit_val_def byte_def
      fmt_d_def fmt_int_def fmt_nat.simps digit_char_def)

subsection \<open>Case mapping\<close>

lemma lower_byte_cases:
  "lower_byte c = c \<or>
   (c, lower_byte c) \<in> set (zip ''ABCDEFGHIJKLMNOPQRSTUVWXYZ'' ''abcdefghijklmnopqrstuvwxyz'')"
proof (cases "map_of (zip ''ABCDEFGHIJKLMNOPQRSTUVWXYZ'' ''abcdefghijklmnopqrstuvwxyz'') c")
  case None
  then show ?thesis unfolding lower_byte_def by simp
next
  case (Some l)
  then have "lower_byte c = l" unfolding lower_byte_def by simp
  with map_of_SomeD [OF Some] show ?thesis by blast
qed

lemma lower_byte_a: "lower_byte c = CHR ''a'' \<Longrightarrow> c = CHR ''a'' \<or> c = CHR ''A''"
  using lower_byte_cases [of c] by auto

lemma lower_byte_l: "lower_byte c = CHR ''l'' \<Longrightarrow> c = CHR ''l'' \<or> c = CHR ''L''"
  using lower_byte_cases [of c] by auto

lemma ToLower_Nil: "ToLower s = [] \<Longrightarrow> s = []"
  by (cases s) (auto split: if_splits)

lemma ToLower_Cons:
  assumes "ToLower s = x # ys" "x \<noteq> CHR ''i''" "x \<noteq> CHR ''k''"
  shows "\<exists>c cs. s = c # cs \<and> lower_byte c = x \<and> ToLower cs = ys"
proof (cases s)
  case Nil
  then show ?thesis using assms by simp
next
  case (Cons c cs)
  then show ?thesis using assms by (simp split: if_splits)
qed

lemma ToLower_all:
  "ToLower s = ''all'' \<longleftrightarrow>
   s \<in> set [''all'', ''alL'', ''aLl'', ''aLL'', ''All'', ''AlL'', ''ALl'', ''ALL'']"
proof
  assume A: "ToLower s = ''all''"
  obtain c1 s1 where 1: "s = c1 # s1" "lower_byte c1 = CHR ''a''" "ToLower s1 = ''ll''"
    using ToLower_Cons [OF A] by auto
  obtain c2 s2 where 2: "s1 = c2 # s2" "lower_byte c2 = CHR ''l''" "ToLower s2 = ''l''"
    using ToLower_Cons [OF 1(3)] by auto
  obtain c3 s3 where 3: "s2 = c3 # s3" "lower_byte c3 = CHR ''l''" "ToLower s3 = []"
    using ToLower_Cons [OF 2(3)] by auto
  have "s3 = []" using 3(3) by (rule ToLower_Nil)
  then have "s = [c1, c2, c3]" using 1(1) 2(1) 3(1) by simp
  moreover have "c1 = CHR ''a'' \<or> c1 = CHR ''A''" using 1(2) by (rule lower_byte_a)
  moreover have "c2 = CHR ''l'' \<or> c2 = CHR ''L''" using 2(2) by (rule lower_byte_l)
  moreover have "c3 = CHR ''l'' \<or> c3 = CHR ''L''" using 3(2) by (rule lower_byte_l)
  ultimately show "s \<in> set [''all'', ''alL'', ''aLl'', ''aLL'', ''All'', ''AlL'', ''ALl'', ''ALL'']"
    by auto
next
  assume "s \<in> set [''all'', ''alL'', ''aLl'', ''aLL'', ''All'', ''AlL'', ''ALl'', ''ALL'']"
  then show "ToLower s = ''all''" by (auto simp: lower_byte_def)
qed

lemma for_all_iff:
  "for_all idStr \<longleftrightarrow>
   idStr \<in> set [''all'', ''alL'', ''aLl'', ''aLL'', ''All'', ''AlL'', ''ALl'', ''ALL'', ''0'', ''00'']"
  unfolding for_all_def ToLower_all by auto

lemma for_all_not_literal:
  assumes "for_all idStr"
  shows "\<not> (\<exists>v. int_literal 10 idStr = Some v \<and> 1 \<le> v)"
proof -
  have "idStr \<in> set [''all'', ''alL'', ''aLl'', ''aLL'', ''All'', ''AlL'', ''ALl'', ''ALL'', ''0'', ''00'']"
    using assms by (simp only: for_all_iff)
  then show ?thesis
    by (auto simp: int_literal_def is_digits_def digits_val_def digit_val_def byte_def)
qed

subsection \<open>The world\<close>

lemma Atoi_literal: "Atoi s = Inr v \<longleftrightarrow> int_literal 10 s = Some v"
  by (simp add: Atoi_def ParseInt_literal)

lemma Atoi_literal_None: "(\<exists>e. Atoi s = Inl e) \<longleftrightarrow> int_literal 10 s = None"
  using ParseInt_literal_None [of 10 s] by (simp add: Atoi_def)

lemma events_emit [simp]: "events (emit e w) = events w @ [e]"
  by (simp add: emit_def)

lemma ncalls_emit [simp]: "ncalls (emit e w) = ncalls w"
  by (simp add: emit_def)

lemma events_println [simp]: "events (println s w) = events w @ [Print (s @ nl)]"
  by (simp add: println_def)

lemma ncalls_println [simp]: "ncalls (println s w) = ncalls w"
  by (simp add: println_def)

lemma added_append [simp]: "events w' = events w @ es \<Longrightarrow> added w w' = es"
  by (simp add: added_def)

lemma exec_eq:
  "exec h site cmdline w =
   (tool h (ncalls w) cmdline,
    w\<lparr>ncalls := Suc (ncalls w),
      events := events w @ [Invoke site cmdline (tool h (ncalls w) cmdline)]\<rparr>)"
  by (simp add: exec_def Let_def)

lemma ipmiRaw_eq:
  "ipmiRaw h site args w =
   (case tool h (ncalls w) (''ipmitool'' # ''raw'' # ''0x2e'' # args) of
      Failed err out \<Rightarrow> Inl (err @ '': '' @ out)
    | Succeeded out \<Rightarrow> Inr out,
    w\<lparr>ncalls := Suc (ncalls w),
      events := events w @ [Invoke site (''ipmitool'' # ''raw'' # ''0x2e'' # args)
                              (tool h (ncalls w) (''ipmitool'' # ''raw'' # ''0x2e'' # args))]\<rparr>)"
  by (simp add: ipmiRaw_def exec_eq split: tool_result.splits)

subsection \<open>setSpeed\<close>

lemma setSpeed_reject:
  assumes "\<not> (\<exists>v. int_literal 10 speedStr = Some v \<and> 0 \<le> v \<and> v \<le> 100)"
  shows "setSpeed h idStr speedStr w =
         (Returned, println ''Error: Speed must be an integer between 0 and 100'' w)"
proof (cases "Atoi speedStr")
  case (Inl e)
  then show ?thesis by (simp add: setSpeed_def)
next
  case (Inr v)
  then have "int_literal 10 speedStr = Some v" by (simp add: Atoi_literal)
  then have "v < 0 \<or> 100 < v" using assms by auto
  then show ?thesis using Inr by (auto simp: setSpeed_def)
qed

lemma setSpeed_accept:
  assumes "int_literal 10 speedStr = Some v" "0 \<le> v" "v \<le> 100"
  shows "setSpeed h idStr speedStr w =
         (let fid = formattedID idStr;
              res = tool h (ncalls w) (write_command fid v);
              w' = w\<lparr>ncalls := Suc (ncalls w),
                      events := events w @ [Invoke InSetSpeed (write_command fid v) res]\<rparr>
          in case res of
               Failed err out \<Rightarrow>
                 (Exited 1, emit (Print (''IPMI Error: '' @ err @ '': '' @ out @ nl)) w')
             | Succeeded out \<Rightarrow>
                 (Returned,
                  emit (Print ((if for_all idStr then ''All fans''
                                else ''Fan '' @ fid) @ '' successfully set to ''
                               @ fmt_d v @ ''%'' @ nl)) w'))"
proof -
  have A: "Atoi speedStr = Inr v" using assms(1) by (simp add: Atoi_literal)
  show ?thesis
    using A assms(2,3)
    by (cases "tool h (ncalls w) (write_command (formattedID idStr) v)")
       (auto simp: setSpeed_def ipmiRaw_eq Let_def write_command_def formattedID_def for_all_def)
qed

text \<open>
  C8. For every id and every speed argument that is not a written integer between 0 and
  100 (as \<^verbatim>\<open>set all 150\<close>), \<open>setSpeed\<close> prints the range error and does nothing else: the
  tool is not run and the world is otherwise as before; so does the whole program on
  \<^verbatim>\<open>set <id> <speed>\<close>.
\<close>

theorem setSpeed_range_error:
  assumes "\<not> (\<exists>v. int_literal 10 speedStr = Some v \<and> 0 \<le> v \<and> v \<le> 100)"
  shows "setSpeed h idStr speedStr w =
           (Returned, println ''Error: Speed must be an integer between 0 and 100'' w)
         \<and> added w (snd (setSpeed h idStr speedStr w)) =
             [Print (''Error: Speed must be an integer between 0 and 100'' @ nl)]
         \<and> ncalls (snd (setSpeed h idStr speedStr w)) = ncalls w
         \<and> (lookPath h \<longrightarrow>
              main h [prog, ''set'', idStr, speedStr] =
                (Returned, println ''Error: Speed must be an integer between 0 and 100'' init_world))"
proof -
  have "setSpeed h idStr speedStr w' =
        (Returned, println ''Error: Speed must be an integer between 0 and 100'' w')" for w'
    using assms by (rule setSpeed_reject)
  then show ?thesis by (simp add: main_def)
qed

theorem setSpeed_range_error_witness:
  "int_literal 10 ''150'' = Some 150
   \<and> main sample_host [''rd450x-fan-control'', ''set'', ''all'', ''150''] =
       (Returned, println ''Error: Speed must be an integer between 0 and 100'' init_world)
   \<and> added init_world (snd (setSpeed sample_host ''all'' ''150'' init_world)) =
       [Print (''Error: Speed must be an integer between 0 and 100'' @ nl)]"
proof -
  have v: "int_literal 10 ''150'' = Some 150"
    by (simp add: int_literal_def is_digits_def digits_val_def digit_val_def byte_def)
  have h: "\<not> (\<exists>v. int_literal 10 ''150'' = Some v \<and> 0 \<le> v \<and> v \<le> 100)"
    by (simp add: v)
  have l: "lookPath sample_host" by (simp add: sample_host_def)
  show ?thesis
    using setSpeed_range_error [OF h, of sample_host "''all''" init_world "''rd450x-fan-control''"] v l
    by simp
qed

subsection \<open>getSpeed\<close>

lemma getSpeed_all:
  assumes "for_all idStr"
  shows "getSpeed h idStr w =
         (Returned, println ''Error: To view all fans, use the 'status' command.'' w)"
  using assms by (simp add: getSpeed_def for_all_def)

lemma getSpeed_reject:
  assumes "\<not> for_all idStr" "\<not> (\<exists>v. int_literal 10 idStr = Some v \<and> 1 \<le> v \<and> v \<le> 6)"
  shows "getSpeed h idStr w = (Returned, println ''Error: Fan ID must be between 01 and 06'' w)"
proof (cases "Atoi idStr")
  case (Inl e)
  then show ?thesis using assms(1) by (simp add: getSpeed_def for_all_def)
next
  case (Inr v)
  then have "int_literal 10 idStr = Some v" by (simp add: Atoi_literal)
  then have "v < 1 \<or> 6 < v" using assms(2) by auto
  then show ?thesis using Inr assms(1) by (auto simp: getSpeed_def for_all_def)
qed

lemma getSpeed_accept:
  assumes "int_literal 10 idStr = Some v" "1 \<le> v" "v \<le> 6"
  shows "getSpeed h idStr w =
         (let res = tool h (ncalls w) read_command;
              w' = w\<lparr>ncalls := Suc (ncalls w),
                      events := events w @ [Invoke InGetSpeed read_command res]\<rparr>
          in case res of
               Failed err out \<Rightarrow>
                 (Exited 1, emit (Print (''IPMI Error: '' @ err @ '': '' @ out @ nl)) w')
             | Succeeded out \<Rightarrow>
                 (Returned,
                  if int (length (Fields out)) > v
                  then emit (Print (''Fan '' @ fmt_02d v @ '' PWM: ''
                                    @ hexToPercent (Fields out ! nat v) @ nl)) w'
                  else println ''Error: Unexpected IPMI response format or missing data'' w'))"
proof -
  have A: "Atoi idStr = Inr v" using assms(1) by (simp add: Atoi_literal)
  have F: "\<not> for_all idStr" using for_all_not_literal [of idStr] assms by auto
  show ?thesis
    using A F assms(2,3)
    by (cases "tool h (ncalls w) read_command")
       (auto simp: getSpeed_def ipmiRaw_eq Let_def read_command_def for_all_def)
qed

text \<open>
  C7. \<open>getSpeed\<close> accepts an id only when it is a written integer between 1 and 6 (a leading
  zero is optional). The ids \<open>all\<close>, \<open>0\<close> and \<open>00\<close> are turned away with the message that
  points to \<^verbatim>\<open>status\<close>; every other id that is not an integer between 1 and 6, as \<open>07\<close>,
  is turned away with the validation error; and the tool is run exactly when the id is
  accepted, so never when it is turned away.
\<close>

theorem getSpeed_validation:
  "(for_all idStr \<longrightarrow>
      getSpeed h idStr w =
        (Returned, println ''Error: To view all fans, use the 'status' command.'' w))
   \<and> (\<not> for_all idStr \<and> \<not> (\<exists>v. int_literal 10 idStr = Some v \<and> 1 \<le> v \<and> v \<le> 6) \<longrightarrow>
      getSpeed h idStr w = (Returned, println ''Error: Fan ID must be between 01 and 06'' w))
   \<and> ((\<exists>e \<in> set (added w (snd (getSpeed h idStr w))). is_invoke e) \<longleftrightarrow>
      (\<exists>v. int_literal 10 idStr = Some v \<and> 1 \<le> v \<and> v \<le> 6))
   \<and> (lookPath h \<longrightarrow> main h [prog, ''get'', idStr] = getSpeed h idStr init_world)"
proof -
  let ?ok = "\<exists>v. int_literal 10 idStr = Some v \<and> 1 \<le> v \<and> v \<le> 6"
  have inv: "(\<exists>e \<in> set (added w (snd (getSpeed h idStr w))). is_invoke e) \<longleftrightarrow> ?ok"
  proof (cases ?ok)
    case True
    then obtain v where v: "int_literal 10 idStr = Some v" "1 \<le> v" "v \<le> 6" by auto
    have "\<exists>e \<in> set (added w (snd (getSpeed h idStr w))). is_invoke e"
      by (cases "tool h (ncalls w) read_command")
         (simp_all add: getSpeed_accept [OF v] Let_def is_invoke_def added_def println_def)
    then show ?thesis using True by simp
  next
    case False
    have "added w (snd (getSpeed h idStr w)) =
            [Print (''Error: To view all fans, use the 'status' command.'' @ nl)]
          \<or> added w (snd (getSpeed h idStr w)) =
            [Print (''Error: Fan ID must be between 01 and 06'' @ nl)]"
      using False getSpeed_all [of idStr h w] getSpeed_reject [of idStr h w]
      by (cases "for_all idStr") simp_all
    then show ?thesis using False by (auto simp: is_invoke_def)
  qed
  show ?thesis
    using inv getSpeed_all [of idStr h w] getSpeed_reject [of idStr h w]
    by (simp add: main_def)
qed

theorem getSpeed_validation_witness:
  "for_all ''all'' \<and> for_all ''0'' \<and> for_all ''00'' \<and> for_all ''ALL''
   \<and> getSpeed sample_host ''00'' init_world =
       (Returned, println ''Error: To view all fans, use the 'status' command.'' init_world)
   \<and> \<not> for_all ''07'' \<and> int_literal 10 ''07'' = Some 7
   \<and> main sample_host [''rd450x-fan-control'', ''get'', ''07''] =
       (Returned, println ''Error: Fan ID must be between 01 and 06'' init_world)
   \<and> int_literal 10 ''1'' = Some 1 \<and> int_literal 10 ''01'' = Some 1
   \<and> (\<exists>e \<in> set (added init_world (snd (getSpeed sample_host ''1'' init_world))). is_invoke e)
   \<and> (\<exists>e \<in> set (added init_world (snd (getSpeed sample_host ''01'' init_world))). is_invoke e)"
proof -
  have a: "for_all ''all''" "for_all ''0''" "for_all ''00''" "for_all ''ALL''" "\<not> for_all ''07''"
    by (simp_all add: for_all_iff)
  have l: "int_literal 10 ''07'' = Some 7" "int_literal 10 ''1'' = Some 1"
    "int_literal 10 ''01'' = Some 1"
    by (simp_all add: int_literal_def is_digits_def digits_val_def digit_val_def byte_def)
  have p: "lookPath sample_host" by (simp add: sample_host_def)
  show ?thesis
    using getSpeed_validation [of "''00''" sample_host init_world]
      getSpeed_validation [of "''07''" sample_host init_world "''rd450x-fan-control''"]
      getSpeed_validation [of "''1''" sample_host init_world]
      getSpeed_validation [of "''01''" sample_host init_world]
      a l p
    by simp
qed

text \<open>
  C6, as the claim states it, fails: an id of one byte that is not a digit is not passed
  through as it is; \<^verbatim>\<open>set x 50\<close> hands the id \<open>0x\<close> to the tool.
\<close>

theorem setSpeed_passthrough_counterexample:
  "added init_world (snd (setSpeed sample_host ''x'' ''50'' init_world)) =
     [Invoke InSetSpeed (write_command ''0x'' 50) (Succeeded []),
      Print (''Fan 0x successfully set to 50%'' @ nl)]
   \<and> write_command ''0x'' 50 \<noteq> write_command ''x'' 50"
proof -
  have v: "int_literal 10 ''50'' = Some 50"
    by (simp add: int_literal_def is_digits_def digits_val_def digit_val_def byte_def)
  have f: "\<not> for_all ''x''" by (simp add: for_all_iff)
  have t: "tool sample_host 0 (write_command ''0x'' 50) = Succeeded []"
    by (simp add: sample_host_def sample_tool_def write_command_def read_command_def
        sensor_command_def)
  have d: "fmt_d 50 = ''50''"
    by (simp add: fmt_d_def fmt_int_def fmt_nat.simps digit_char_def)
  show ?thesis
    using f t d
    by (simp add: setSpeed_accept [OF v] formattedID_def init_world_def Let_def added_def
        write_command_def)
qed

text \<open>
  C6, amended. For every speed, \<^verbatim>\<open>set 1 s\<close> and \<^verbatim>\<open>set 01 s\<close> do the same, and with a speed
  between 0 and 100 both run the write command with the fan id \<open>01\<close>. The ids \<open>all\<close> (in
  any case), \<open>0\<close> and \<open>00\<close> become the id \<open>00\<close> for all fans; any other id of one byte,
  digit or not, gets a \<open>0\<close> in front; and every other id is handed to the tool as it is,
  with no upper bound.
\<close>

theorem setSpeed_id_normalisation:
  "setSpeed h ''1'' speedStr w = setSpeed h ''01'' speedStr w
   \<and> (int_literal 10 speedStr = Some v \<and> 0 \<le> v \<and> v \<le> 100 \<longrightarrow>
        (\<exists>msg. added w (snd (setSpeed h ''1'' speedStr w)) =
           [Invoke InSetSpeed (write_command ''01'' v)
              (tool h (ncalls w) (write_command ''01'' v)), Print msg])
        \<and> (\<exists>msg. added w (snd (setSpeed h idStr speedStr w)) =
             [Invoke InSetSpeed (write_command (formattedID idStr) v)
                (tool h (ncalls w) (write_command (formattedID idStr) v)), Print msg]))
   \<and> (for_all idStr \<longleftrightarrow>
        idStr \<in> set [''all'', ''alL'', ''aLl'', ''aLL'', ''All'', ''AlL'', ''ALl'', ''ALL'',
                     ''0'', ''00''])
   \<and> (for_all idStr \<longrightarrow> formattedID idStr = ''00'')
   \<and> (\<not> for_all idStr \<and> length idStr = 1 \<longrightarrow> formattedID idStr = CHR ''0'' # idStr)
   \<and> (\<not> for_all idStr \<and> length idStr \<noteq> 1 \<longrightarrow> formattedID idStr = idStr)"
proof -
  have same: "setSpeed h ''1'' speedStr w = setSpeed h ''01'' speedStr w"
  proof (cases "\<exists>v. int_literal 10 speedStr = Some v \<and> 0 \<le> v \<and> v \<le> 100")
    case True
    then obtain u where u: "int_literal 10 speedStr = Some u" "0 \<le> u" "u \<le> 100" by auto
    have "formattedID ''1'' = ''01''" "formattedID ''01'' = ''01''"
      "\<not> for_all ''1''" "\<not> for_all ''01''"
      by (simp_all add: formattedID_def for_all_iff)
    then show ?thesis by (simp add: setSpeed_accept [OF u] Let_def)
  next
    case False
    then show ?thesis by (simp add: setSpeed_reject)
  qed
  have run: "\<exists>msg. added w (snd (setSpeed h i speedStr w)) =
               [Invoke InSetSpeed (write_command (formattedID i) v)
                  (tool h (ncalls w) (write_command (formattedID i) v)), Print msg]"
    if "int_literal 10 speedStr = Some v" "0 \<le> v" "v \<le> 100" for i
    by (cases "tool h (ncalls w) (write_command (formattedID i) v)")
       (simp_all add: setSpeed_accept [OF that] Let_def added_def)
  have one: "formattedID ''1'' = ''01''" by (simp add: formattedID_def for_all_iff)
  show ?thesis
    using same run [of "''1''"] run [of idStr] one for_all_iff [of idStr]
    by (simp add: formattedID_def)
qed

theorem setSpeed_id_normalisation_witness:
  "int_literal 10 ''45'' = Some 45
   \<and> added init_world (snd (setSpeed sample_host ''1'' ''45'' init_world)) =
       added init_world (snd (setSpeed sample_host ''01'' ''45'' init_world))
   \<and> (\<exists>msg. added init_world (snd (setSpeed sample_host ''1'' ''45'' init_world)) =
        [Invoke InSetSpeed
           [''ipmitool'', ''raw'', ''0x2e'', ''0x30'', ''00'', ''01'', ''0x2d'']
           (Succeeded []), Print msg])
   \<and> for_all ''All'' \<and> formattedID ''All'' = ''00'' \<and> formattedID ''0'' = ''00''
   \<and> \<not> for_all ''7'' \<and> formattedID ''7'' = ''07''
   \<and> \<not> for_all ''99'' \<and> formattedID ''99'' = ''99''"
proof -
  have v: "int_literal 10 ''45'' = Some 45"
    by (simp add: int_literal_def is_digits_def digits_val_def digit_val_def byte_def)
  have w: "write_command ''01'' 45 = [''ipmitool'', ''raw'', ''0x2e'', ''0x30'', ''00'', ''01'', ''0x2d'']"
    by (simp add: write_command_def fmt_x_def fmt_int_def fmt_nat.simps digit_char_def)
  have t: "tool sample_host 0 (write_command ''01'' 45) = Succeeded []"
    unfolding w by (simp add: sample_host_def sample_tool_def read_command_def sensor_command_def)
  have n: "ncalls init_world = 0" by (simp add: init_world_def)
  have a: "for_all ''All''" "for_all ''0''" "\<not> for_all ''7''" "\<not> for_all ''99''"
    by (simp_all add: for_all_iff)
  show ?thesis
    using setSpeed_id_normalisation [of sample_host "''45''" init_world 45 "''All''"]
      setSpeed_id_normalisation [of sample_host "''45''" init_world 45 "''0''"]
      setSpeed_id_normalisation [of sample_host "''45''" init_world 45 "''7''"]
      setSpeed_id_normalisation [of sample_host "''45''" init_world 45 "''99''"]
      v t n a
    by (simp add: w)
qed

subsection \<open>getPWMs and getStatus\<close>

lemma getPWMs_world:
  "snd (getPWMs h w) =
   w\<lparr>ncalls := Suc (ncalls w),
     events := events w @ [Invoke InGetPWMs read_command (tool h (ncalls w) read_command)]\<rparr>"
  by (cases "tool h (ncalls w) read_command")
     (simp_all add: getPWMs_def ipmiRaw_eq read_command_def Let_def)

lemma getPWMs_Failed:
  "tool h (ncalls w) read_command = Failed err out \<Longrightarrow> fst (getPWMs h w) = Map.empty"
  by (simp add: getPWMs_def ipmiRaw_eq read_command_def)

lemma getPWMs_short:
  "tool h (ncalls w) read_command = Succeeded out \<Longrightarrow> length (Fields out) < 7
   \<Longrightarrow> fst (getPWMs h w) = Map.empty"
  by (simp add: getPWMs_def ipmiRaw_eq read_command_def)

lemma getPWMs_full:
  "tool h (ncalls w) read_command = Succeeded out \<Longrightarrow> 7 \<le> length (Fields out)
   \<Longrightarrow> fst (getPWMs h w) =
       map_of (zip fanNames (map hexToPercent (take 6 (drop 1 (Fields out)))))"
proof -
  assume t: "tool h (ncalls w) read_command = Succeeded out" and l: "7 \<le> length (Fields out)"
  obtain p0 p1 p2 p3 p4 p5 p6 ps where ps: "Fields out = p0 # p1 # p2 # p3 # p4 # p5 # p6 # ps"
    using l by (auto simp: Suc_le_length_iff numeral_eq_Suc)
  show ?thesis
    using t by (auto simp: getPWMs_def ipmiRaw_eq read_command_def ps fanNames_def)
qed

lemma getStatus_eq:
  "getStatus h asJson w =
   (let pwms = fst (getPWMs h w);
        w1 = snd (getPWMs h w);
        res = tool h (Suc (ncalls w)) sensor_command;
        w2 = w1\<lparr>ncalls := Suc (Suc (ncalls w)),
                 events := events w1 @ [Invoke InGetStatus sensor_command res]\<rparr>
    in case res of
         Failed err out \<Rightarrow> emit (Print (''Error fetching sensor data: '' @ err @ nl)) w2
       | Succeeded out \<Rightarrow>
           emit (Render asJson
                   \<lparr>Fans = map (fanEntry pwms (fst (foldl (scanLine h) (Map.empty, [])
                                                      (Split out (CHR 0x0A))))) fanNames,
                    Thermals = snd (foldl (scanLine h) (Map.empty, [])
                                      (Split out (CHR 0x0A)))\<rparr>) w2)"
  by (cases "tool h (Suc (ncalls w)) sensor_command")
     (simp_all add: getStatus_def exec_eq getPWMs_world sensor_command_def Let_def
        case_prod_beta)

lemma getStatus_ncalls: "ncalls (getStatus h asJson w) = Suc (Suc (ncalls w))"
  by (cases "tool h (Suc (ncalls w)) sensor_command")
     (simp_all add: getStatus_eq Let_def getPWMs_world)

text \<open>
  C10. When the run of the sensor list fails during \<^verbatim>\<open>status\<close>, the error is printed and
  \<open>getStatus\<close> returns: after the raw read of the PWM values, which has been done, and the
  failed run, the only output is the error line; no report is written, in text or as JSON,
  and the process ends with status 0.
\<close>

theorem getStatus_sensor_failure:
  assumes "tool h (Suc (ncalls w)) sensor_command = Failed err out"
  shows "added w (getStatus h asJson w) =
           [Invoke InGetPWMs read_command (tool h (ncalls w) read_command),
            Invoke InGetStatus sensor_command (Failed err out),
            Print (''Error fetching sensor data: '' @ err @ nl)]
         \<and> \<not> (\<exists>e \<in> set (added w (getStatus h asJson w)). is_render e)
         \<and> (lookPath h \<and> w = init_world \<longrightarrow>
              main h (prog # ''status'' # rest) = (Returned, getStatus h (rest \<noteq> [] \<and> hd rest = ''--json'') w)
              \<and> exit_code (fst (main h (prog # ''status'' # rest))) = 0)"
proof -
  have a: "added w (getStatus h asJson w) =
           [Invoke InGetPWMs read_command (tool h (ncalls w) read_command),
            Invoke InGetStatus sensor_command (Failed err out),
            Print (''Error fetching sensor data: '' @ err @ nl)]"
    using assms by (simp add: getStatus_eq Let_def getPWMs_world added_def)
  have m: "main h (prog # ''status'' # rest) =
           (Returned, getStatus h (rest \<noteq> [] \<and> hd rest = ''--json'') init_world)" if "lookPath h"
    using that by (cases rest) (simp_all add: main_def)
  show ?thesis using a m by (simp add: is_render_def exit_code_def)
qed

theorem getStatus_sensor_failure_witness:
  "tool failing_host (Suc (ncalls init_world)) sensor_command
     = Failed ''exit status 1'' ''Could not open device''
   \<and> events (snd (main failing_host [''rd450x-fan-control'', ''status'', ''--json''])) =
       [Invoke InGetPWMs read_command (Failed ''exit status 1'' ''Could not open device''),
        Invoke InGetStatus sensor_command (Failed ''exit status 1'' ''Could not open device''),
        Print (''Error fetching sensor data: exit status 1'' @ nl)]
   \<and> exit_code (fst (main failing_host [''rd450x-fan-control'', ''status'', ''--json''])) = 0"
proof -
  have t: "tool failing_host n c = Failed ''exit status 1'' ''Could not open device''" for n c
    by (simp add: failing_host_def sample_host_def)
  have l: "lookPath failing_host" by (simp add: failing_host_def sample_host_def)
  have e: "events init_world = []" by (simp add: init_world_def)
  show ?thesis
    using getStatus_sensor_failure [OF t, of init_world True "''rd450x-fan-control''" "[''--json'']"]
      t l e
    by (simp add: added_def exit_code_def)
qed

subsection \<open>The loop over the sensor rows\<close>

lemma scanLine_cases:
  "scanLine h (m, ts) line = (m, ts)
   \<or> (\<exists>name val. scanLine h (m, ts) line = (m(name \<mapsto> val @ '' RPM''), ts))
   \<or> (\<exists>t. scanLine h (m, ts) line = (m, ts @ [t]))"
  unfolding scanLine_def Let_def by (simp del: fun_upd_apply) blast

lemma scanLine_nonempty:
  assumes "\<forall>k v. m k = Some v \<longrightarrow> v \<noteq> []"
  shows "\<forall>k v. fst (scanLine h (m, ts) line) k = Some v \<longrightarrow> v \<noteq> []"
proof (intro allI impI)
  fix k v
  assume s: "fst (scanLine h (m, ts) line) k = Some v"
  have "m k = Some v \<or> (\<exists>val. v = val @ '' RPM'')"
    using scanLine_cases [of h m ts line] s by (auto split: if_splits)
  then show "v \<noteq> []" using assms by auto
qed

lemma foldl_scanLine_nonempty:
  assumes "\<forall>k v. fst st k = Some v \<longrightarrow> v \<noteq> []"
  shows "\<forall>k v. fst (foldl (scanLine h) st lines) k = Some v \<longrightarrow> v \<noteq> []"
  using assms
proof (induction lines arbitrary: st)
  case Nil
  then show ?case by simp
next
  case (Cons l ls)
  obtain m ts where st: "st = (m, ts)" by (cases st)
  have "\<forall>k v. fst (scanLine h st l) k = Some v \<longrightarrow> v \<noteq> []"
    unfolding st using Cons.prems scanLine_nonempty [of m h ts l] by (simp add: st)
  then show ?case using Cons.IH by simp
qed

lemma hexToPercent_nonempty: "hexToPercent s \<noteq> []"
  by (simp add: hexToPercent_def split: sum.splits)

lemma getPWMs_nonempty: "fst (getPWMs h w) k = Some v \<Longrightarrow> v \<noteq> []"
  by (cases "tool h (ncalls w) read_command")
     (auto simp: getPWMs_def ipmiRaw_eq read_command_def Let_def hexToPercent_nonempty
        split: if_splits)

lemma fanEntry_fields:
  assumes "\<forall>k v. pwms k = Some v \<longrightarrow> v \<noteq> []" "\<forall>k v. rpmMap k = Some v \<longrightarrow> v \<noteq> []"
  shows "Name (fanEntry pwms rpmMap name) = name"
    and "PWM (fanEntry pwms rpmMap name) = (case pwms name of None \<Rightarrow> ''N/A'' | Some p \<Rightarrow> p)"
    and "RPM (fanEntry pwms rpmMap name) = (case rpmMap name of None \<Rightarrow> ''N/A'' | Some r \<Rightarrow> r)"
  using assms by (auto simp: fanEntry_def lookup_def Let_def split: option.splits)

text \<open>
  C1. Whatever the raw read of the PWM values answers and whatever the sensor list prints,
  the report of \<^verbatim>\<open>status\<close> has exactly the six fans System Fan1 to System Fan4, CPU Fan1
  and CPU Fan2, in this order, each with the PWM and the RPM found for its name and with
  \<open>N/A\<close> for a value that is missing. In particular, when the raw read fails or answers
  fewer than seven fields, the PWM mapping is empty and every fan reports the PWM \<open>N/A\<close>;
  the report is written all the same.
\<close>

theorem getStatus_six_fans:
  assumes "tool h (Suc (ncalls w)) sensor_command = Succeeded out"
  shows "\<exists>report.
           added w (getStatus h asJson w) =
             [Invoke InGetPWMs read_command (tool h (ncalls w) read_command),
              Invoke InGetStatus sensor_command (Succeeded out),
              Render asJson report]
           \<and> map Name (Fans report) =
               [''System Fan1'', ''System Fan2'', ''System Fan3'', ''System Fan4'',
                ''CPU Fan1'', ''CPU Fan2'']
           \<and> (\<forall>f \<in> set (Fans report).
                 PWM f = (case fst (getPWMs h w) (Name f) of None \<Rightarrow> ''N/A'' | Some p \<Rightarrow> p)
                 \<and> RPM f = (case fst (foldl (scanLine h) (Map.empty, [])
                                        (Split out (CHR 0x0A))) (Name f) of
                              None \<Rightarrow> ''N/A'' | Some r \<Rightarrow> r))
           \<and> ((\<exists>err out'. tool h (ncalls w) read_command = Failed err out')
                \<or> (\<exists>out'. tool h (ncalls w) read_command = Succeeded out'
                           \<and> length (Fields out') < 7)
               \<longrightarrow> fst (getPWMs h w) = Map.empty
                   \<and> (\<forall>f \<in> set (Fans report). PWM f = ''N/A''))"
proof -
  define pwms where "pwms = fst (getPWMs h w)"
  define rpmMap where "rpmMap = fst (foldl (scanLine h) (Map.empty, []) (Split out (CHR 0x0A)))"
  define report where
    "report = \<lparr>Fans = map (fanEntry pwms rpmMap) fanNames,
               Thermals = snd (foldl (scanLine h) (Map.empty, []) (Split out (CHR 0x0A)))\<rparr>"
  have p: "\<forall>k v. pwms k = Some v \<longrightarrow> v \<noteq> []"
    unfolding pwms_def using getPWMs_nonempty by blast
  have r: "\<forall>k v. rpmMap k = Some v \<longrightarrow> v \<noteq> []"
    unfolding rpmMap_def by (rule foldl_scanLine_nonempty) simp
  note fe = fanEntry_fields [OF p r]
  have ev: "added w (getStatus h asJson w) =
             [Invoke InGetPWMs read_command (tool h (ncalls w) read_command),
              Invoke InGetStatus sensor_command (Succeeded out),
              Render asJson report]"
    using assms
    by (simp add: getStatus_eq Let_def getPWMs_world added_def report_def pwms_def rpmMap_def)
  have names: "map Name (Fans report) =
               [''System Fan1'', ''System Fan2'', ''System Fan3'', ''System Fan4'',
                ''CPU Fan1'', ''CPU Fan2'']"
    by (simp add: report_def fe(1) fanNames_def)
  have vals: "\<forall>f \<in> set (Fans report).
                 PWM f = (case pwms (Name f) of None \<Rightarrow> ''N/A'' | Some p \<Rightarrow> p)
                 \<and> RPM f = (case rpmMap (Name f) of None \<Rightarrow> ''N/A'' | Some r \<Rightarrow> r)"
    by (auto simp: report_def fe)
  have empty: "pwms = Map.empty \<and> (\<forall>f \<in> set (Fans report). PWM f = ''N/A'')"
    if "(\<exists>err out'. tool h (ncalls w) read_command = Failed err out')
        \<or> (\<exists>out'. tool h (ncalls w) read_command = Succeeded out' \<and> length (Fields out') < 7)"
  proof -
    have "pwms = Map.empty"
      using that getPWMs_Failed [of h w] getPWMs_short [of h w] unfolding pwms_def by blast
    then show ?thesis using vals by simp
  qed
  show ?thesis
    unfolding pwms_def [symmetric] rpmMap_def [symmetric]
    by (rule exI [of _ report]) (use ev names vals empty in simp)
qed

lemma scanLine_unfold:
  "scanLine h (rpmMap, thermals) line =
     (if TrimSpace line = [] then (rpmMap, thermals)
      else if length (Split line (CHR ''|'')) < 3 then (rpmMap, thermals)
      else if field 1 line = ''na'' \<and> \<not> has_word ''FAN'' line then (rpmMap, thermals)
      else if has_word ''FAN'' line \<and> \<not> has_word ''POWER'' line
      then (if field 1 line \<noteq> ''na''
            then (rpmMap(field 0 line \<mapsto> field 1 line @ '' RPM''), thermals)
            else (rpmMap, thermals))
      else if has_word ''TEMP'' line \<or> has_word ''AIRFLOW'' line
      then (let cleanVal = (case ParseFloat h (field 1 line) of
                              None \<Rightarrow> field 1 line
                            | Some valFloat \<Rightarrow> Sprintf_0f h valFloat);
                cleanUnit = (if field 2 line = ''degrees C'' then degC else field 2 line)
            in if cleanVal = ''0'' \<and> cleanUnit = degC then (rpmMap, thermals)
               else (rpmMap,
                     thermals @ [\<lparr>ThermalStatus.Name = field 0 line,
                                   Value = cleanVal @ '' '' @ cleanUnit\<rparr>]))
      else (rpmMap, thermals))"
  by (simp only: scanLine_def field_def has_word_def Let_def prod.case)

lemma scanLine_thermals:
  "snd (scanLine h (rpmMap, thermals) line) = thermals @ snd (scanLine h (m, []) line)"
  by (simp add: scanLine_unfold Let_def)

lemma foldl_scanLine_thermals:
  "snd (foldl (scanLine h) (rpmMap, thermals) lines) =
   thermals @ concat (map (\<lambda>line. snd (scanLine h (Map.empty, []) line)) lines)"
proof (induction lines arbitrary: rpmMap thermals)
  case Nil
  then show ?case by simp
next
  case (Cons l ls)
  obtain m' ts' where s: "scanLine h (rpmMap, thermals) l = (m', ts')"
    by (cases "scanLine h (rpmMap, thermals) l")
  have "ts' = thermals @ snd (scanLine h (Map.empty, []) l)"
    using scanLine_thermals [of h rpmMap thermals l Map.empty] s by simp
  then show ?case using Cons.IH [of m' ts'] s by simp
qed

text \<open>
  C5. Take a row of the sensor list (not blank, at least three fields) whose value is the
  lowercase \<open>na\<close>. If the line has the word FAN, the row writes nothing into the RPM
  mapping, so the fan stays absent there. If the line does not have the word FAN, the row is
  skipped before it is classified: it changes nothing, so it adds nothing to the thermal
  list. The skip is for rows without FAN only: a row with FAN that is not taken as a fan row
  (it also has POWER) and has a thermal word is classified like any thermal row, and is
  listed with the value \<open>na\<close>.
\<close>

theorem scanLine_na:
  assumes "TrimSpace line \<noteq> []" "3 \<le> length (Split line (CHR ''|''))" "field 1 line = ''na''"
  shows "(has_word ''FAN'' line \<longrightarrow> fst (scanLine h (rpmMap, thermals) line) = rpmMap)
         \<and> (\<not> has_word ''FAN'' line \<longrightarrow>
              scanLine h (rpmMap, thermals) line = (rpmMap, thermals))
         \<and> (has_word ''FAN'' line \<and> \<not> has_word ''POWER'' line \<longrightarrow>
              scanLine h (rpmMap, thermals) line = (rpmMap, thermals))
         \<and> (has_word ''FAN'' line \<and> has_word ''POWER'' line
              \<and> (has_word ''TEMP'' line \<or> has_word ''AIRFLOW'' line)
              \<and> ParseFloat h ''na'' = None \<longrightarrow>
              scanLine h (rpmMap, thermals) line =
                (rpmMap,
                 thermals @ [\<lparr>ThermalStatus.Name = field 0 line,
                               Value = ''na '' @ (if field 2 line = ''degrees C'' then degC
                                                 else field 2 line)\<rparr>]))"
  using assms by (simp add: scanLine_unfold Let_def)

lemma eval_row:
  assumes "TrimSpace line \<noteq> []" "length (Split line (CHR ''|'')) = n" "3 \<le> n"
    and "ToUpper line = upper"
  shows "scanLine h (rpmMap, thermals) line =
     (if field 1 line = ''na'' \<and> \<not> Contains upper ''FAN'' then (rpmMap, thermals)
      else if Contains upper ''FAN'' \<and> \<not> Contains upper ''POWER''
      then (if field 1 line \<noteq> ''na''
            then (rpmMap(field 0 line \<mapsto> field 1 line @ '' RPM''), thermals)
            else (rpmMap, thermals))
      else if Contains upper ''TEMP'' \<or> Contains upper ''AIRFLOW''
      then (let cleanVal = (case ParseFloat h (field 1 line) of
                              None \<Rightarrow> field 1 line
                            | Some valFloat \<Rightarrow> Sprintf_0f h valFloat);
                cleanUnit = (if field 2 line = ''degrees C'' then degC else field 2 line)
            in if cleanVal = ''0'' \<and> cleanUnit = degC then (rpmMap, thermals)
               else (rpmMap,
                     thermals @ [\<lparr>ThermalStatus.Name = field 0 line,
                                   Value = cleanVal @ '' '' @ cleanUnit\<rparr>]))
      else (rpmMap, thermals))"
  using assms by (simp add: scanLine_unfold has_word_def)

lemma has_word_upper: "ToUpper line = upper \<Longrightarrow> has_word word line = Contains upper word"
  by (simp add: has_word_def)

lemmas eval_fields = TrimSpace_def white_space_def field_def Split_def

lemmas eval_float =
  sample_host_def sample_ParseFloat_def is_digits_def digits_val_def digit_val_def byte_def
  fmt_d_def fmt_int_def fmt_nat.simps digit_char_def degC_def

lemma sample_row_fan:
  "scanLine sample_host (m, ts) ''System Fan1 | 1558.000 | RPM | ok'' =
     (m(''System Fan1'' \<mapsto> ''1558.000 RPM''), ts)"
proof -
  have "ToUpper ''System Fan1 | 1558.000 | RPM | ok'' = ''SYSTEM FAN1 | 1558.000 | RPM | OK''"
    by (simp add: upper_byte_def)
  then show ?thesis
    by (subst eval_row [where n = 4 and upper = "''SYSTEM FAN1 | 1558.000 | RPM | OK''"])
       (simp_all add: eval_fields)
qed

lemma sample_row_fan_na:
  "scanLine sample_host (m, ts) ''CPU Fan1 | na | RPM | na'' = (m, ts)"
proof -
  have "ToUpper ''CPU Fan1 | na | RPM | na'' = ''CPU FAN1 | NA | RPM | NA''"
    by (simp add: upper_byte_def)
  then show ?thesis
    by (subst eval_row [where n = 4 and upper = "''CPU FAN1 | NA | RPM | NA''"])
       (simp_all add: eval_fields)
qed

lemma sample_row_temp0:
  "scanLine sample_host (m, ts) ''CPU1 Temp | 0.0 | degrees C | ok'' = (m, ts)"
proof -
  have "ToUpper ''CPU1 Temp | 0.0 | degrees C | ok'' = ''CPU1 TEMP | 0.0 | DEGREES C | OK''"
    by (simp add: upper_byte_def)
  then show ?thesis
    by (subst eval_row [where n = 4 and upper = "''CPU1 TEMP | 0.0 | DEGREES C | OK''"])
       (simp_all add: eval_fields eval_float)
qed

lemma sample_row_temp:
  "scanLine sample_host (m, ts) ''PCH Temp | 41 | degrees C | ok'' =
     (m, ts @ [\<lparr>ThermalStatus.Name = ''PCH Temp'', Value = ''41 '' @ degC\<rparr>])"
proof -
  have "ToUpper ''PCH Temp | 41 | degrees C | ok'' = ''PCH TEMP | 41 | DEGREES C | OK''"
    by (simp add: upper_byte_def)
  then show ?thesis
    by (subst eval_row [where n = 4 and upper = "''PCH TEMP | 41 | DEGREES C | OK''"])
       (simp_all add: eval_fields eval_float)
qed

lemma sample_row_airflow:
  "scanLine sample_host (m, ts) ''Airflow rate | 0.0 | CFM | ok'' =
     (m, ts @ [\<lparr>ThermalStatus.Name = ''Airflow rate'', Value = ''0 CFM''\<rparr>])"
proof -
  have "ToUpper ''Airflow rate | 0.0 | CFM | ok'' = ''AIRFLOW RATE | 0.0 | CFM | OK''"
    by (simp add: upper_byte_def)
  then show ?thesis
    by (subst eval_row [where n = 4 and upper = "''AIRFLOW RATE | 0.0 | CFM | OK''"])
       (simp_all add: eval_fields eval_float)
qed

lemma sample_row_blank: "scanLine h (m, ts) [] = (m, ts)"
  by (simp add: scanLine_unfold TrimSpace_def)

lemma na_fan_row:
  "TrimSpace ''CPU Fan1 | na | RPM | na'' \<noteq> []"
  "3 \<le> length (Split ''CPU Fan1 | na | RPM | na'' (CHR ''|''))"
  "field 1 ''CPU Fan1 | na | RPM | na'' = ''na''"
  "has_word ''FAN'' ''CPU Fan1 | na | RPM | na''"
  "\<not> has_word ''POWER'' ''CPU Fan1 | na | RPM | na''"
proof -
  have u: "ToUpper ''CPU Fan1 | na | RPM | na'' = ''CPU FAN1 | NA | RPM | NA''"
    by (simp add: upper_byte_def)
  show "TrimSpace ''CPU Fan1 | na | RPM | na'' \<noteq> []"
    "3 \<le> length (Split ''CPU Fan1 | na | RPM | na'' (CHR ''|''))"
    "field 1 ''CPU Fan1 | na | RPM | na'' = ''na''"
    "has_word ''FAN'' ''CPU Fan1 | na | RPM | na''"
    "\<not> has_word ''POWER'' ''CPU Fan1 | na | RPM | na''"
    by (simp_all add: eval_fields has_word_upper [OF u])
qed

lemma na_temp_row:
  "TrimSpace ''CPU2 Temp | na | degrees C | na'' \<noteq> []"
  "3 \<le> length (Split ''CPU2 Temp | na | degrees C | na'' (CHR ''|''))"
  "field 1 ''CPU2 Temp | na | degrees C | na'' = ''na''"
  "\<not> has_word ''FAN'' ''CPU2 Temp | na | degrees C | na''"
  "has_word ''TEMP'' ''CPU2 Temp | na | degrees C | na''"
proof -
  have u: "ToUpper ''CPU2 Temp | na | degrees C | na'' = ''CPU2 TEMP | NA | DEGREES C | NA''"
    by (simp add: upper_byte_def)
  show "TrimSpace ''CPU2 Temp | na | degrees C | na'' \<noteq> []"
    "3 \<le> length (Split ''CPU2 Temp | na | degrees C | na'' (CHR ''|''))"
    "field 1 ''CPU2 Temp | na | degrees C | na'' = ''na''"
    "\<not> has_word ''FAN'' ''CPU2 Temp | na | degrees C | na''"
    "has_word ''TEMP'' ''CPU2 Temp | na | degrees C | na''"
    by (simp_all add: eval_fields has_word_upper [OF u])
qed

lemma na_power_row:
  "TrimSpace ''Fan Power Temp | na | degrees C | na'' \<noteq> []"
  "3 \<le> length (Split ''Fan Power Temp | na | degrees C | na'' (CHR ''|''))"
  "field 1 ''Fan Power Temp | na | degrees C | na'' = ''na''"
  "field 0 ''Fan Power Temp | na | degrees C | na'' = ''Fan Power Temp''"
  "field 2 ''Fan Power Temp | na | degrees C | na'' = ''degrees C''"
  "has_word ''FAN'' ''Fan Power Temp | na | degrees C | na''"
  "has_word ''POWER'' ''Fan Power Temp | na | degrees C | na''"
  "has_word ''TEMP'' ''Fan Power Temp | na | degrees C | na''"
proof -
  have u: "ToUpper ''Fan Power Temp | na | degrees C | na''
             = ''FAN POWER TEMP | NA | DEGREES C | NA''"
    by (simp add: upper_byte_def)
  show "TrimSpace ''Fan Power Temp | na | degrees C | na'' \<noteq> []"
    "3 \<le> length (Split ''Fan Power Temp | na | degrees C | na'' (CHR ''|''))"
    "field 1 ''Fan Power Temp | na | degrees C | na'' = ''na''"
    "field 0 ''Fan Power Temp | na | degrees C | na'' = ''Fan Power Temp''"
    "field 2 ''Fan Power Temp | na | degrees C | na'' = ''degrees C''"
    "has_word ''FAN'' ''Fan Power Temp | na | degrees C | na''"
    "has_word ''POWER'' ''Fan Power Temp | na | degrees C | na''"
    "has_word ''TEMP'' ''Fan Power Temp | na | degrees C | na''"
    by (simp_all add: eval_fields has_word_upper [OF u])
qed

lemma sample_ParseFloat_na: "ParseFloat sample_host ''na'' = None"
  by (simp add: sample_host_def sample_ParseFloat_def is_digits_def digit_val_def byte_def)

theorem scanLine_na_witness:
  "TrimSpace ''CPU Fan1 | na | RPM | na'' \<noteq> []
   \<and> 3 \<le> length (Split ''CPU Fan1 | na | RPM | na'' (CHR ''|''))
   \<and> field 1 ''CPU Fan1 | na | RPM | na'' = ''na''
   \<and> has_word ''FAN'' ''CPU Fan1 | na | RPM | na''
   \<and> fst (scanLine sample_host (Map.empty, []) ''CPU Fan1 | na | RPM | na'') ''CPU Fan1'' = None
   \<and> field 1 ''CPU2 Temp | na | degrees C | na'' = ''na''
   \<and> \<not> has_word ''FAN'' ''CPU2 Temp | na | degrees C | na''
   \<and> scanLine sample_host (Map.empty, []) ''CPU2 Temp | na | degrees C | na'' = (Map.empty, [])
   \<and> has_word ''FAN'' ''Fan Power Temp | na | degrees C | na''
   \<and> has_word ''POWER'' ''Fan Power Temp | na | degrees C | na''
   \<and> has_word ''TEMP'' ''Fan Power Temp | na | degrees C | na''
   \<and> ParseFloat sample_host ''na'' = None
   \<and> snd (scanLine sample_host (Map.empty, []) ''Fan Power Temp | na | degrees C | na'') =
       [\<lparr>ThermalStatus.Name = ''Fan Power Temp'', Value = ''na '' @ degC\<rparr>]"
  using scanLine_na [OF na_fan_row(1,2,3), of sample_host Map.empty "[]"]
    scanLine_na [OF na_temp_row(1,2,3), of sample_host Map.empty "[]"]
    scanLine_na [OF na_power_row(1,2,3), of sample_host Map.empty "[]"]
    na_fan_row na_temp_row na_power_row sample_ParseFloat_na
  by simp

text \<open>
  C3, as the claim states it, fails: a line with the word TEMP is not always a thermal row.
  A line that also has the word FAN, and not POWER, is taken as a fan row: its value goes
  into the RPM mapping and nothing is added to the thermal list.
\<close>

theorem scanLine_thermal_counterexample:
  "has_word ''TEMP'' ''CPU Fan Temp | 40 | degrees C | ok''
   \<and> scanLine sample_host (Map.empty, []) ''CPU Fan Temp | 40 | degrees C | ok'' =
       (Map.empty(''CPU Fan Temp'' \<mapsto> ''40 RPM''), [])"
proof -
  have u: "ToUpper ''CPU Fan Temp | 40 | degrees C | ok'' = ''CPU FAN TEMP | 40 | DEGREES C | OK''"
    by (simp add: upper_byte_def)
  have "scanLine sample_host (Map.empty, []) ''CPU Fan Temp | 40 | degrees C | ok'' =
          (Map.empty(''CPU Fan Temp'' \<mapsto> ''40 RPM''), [])"
    using u
    by (subst eval_row [where n = 4 and upper = "''CPU FAN TEMP | 40 | DEGREES C | OK''"])
       (simp_all add: eval_fields)
  then show ?thesis by (simp add: has_word_upper [OF u])
qed

text \<open>
  C3, amended. Take a row that reaches the thermal branch: a line that is not blank, has at
  least three fields, has the word TEMP or AIRFLOW in any case, is not taken as a fan row
  (it has not FAN without POWER) and is not skipped for the value \<open>na\<close>. If its value
  parses as a floating-point number, the value is printed again with no decimals; otherwise
  the value is kept as it is. The unit \<open>degrees C\<close> becomes the degree sign and \<open>C\<close>;
  any other unit stays. A reading that comes out as \<open>0\<close> with the Celsius unit is dropped;
  every other reading is appended, so that the readings stand in the order of their rows.
  With \<open>0.0\<close> parsing to a number printed as \<open>0\<close>: the value \<open>0.0\<close> with the unit
  \<open>degrees C\<close> is dropped, and with the unit \<open>CFM\<close> it is kept as \<open>0 CFM\<close>.
\<close>

theorem scanLine_thermal:
  assumes "thermal_row line"
  shows "scanLine h (rpmMap, thermals) line =
           (rpmMap,
            if cleanVal h (field 1 line) = ''0'' \<and> cleanUnit (field 2 line) = degC
            then thermals
            else thermals @ [\<lparr>ThermalStatus.Name = field 0 line,
                               Value = cleanVal h (field 1 line) @ '' ''
                                       @ cleanUnit (field 2 line)\<rparr>])
         \<and> (ParseFloat h val = None \<longrightarrow> cleanVal h val = val)
         \<and> (ParseFloat h val = Some f \<longrightarrow> cleanVal h val = Sprintf_0f h f)
         \<and> cleanUnit ''degrees C'' = degC
         \<and> (u \<noteq> ''degrees C'' \<longrightarrow> cleanUnit u = u)
         \<and> (field 1 line = ''0.0'' \<and> ParseFloat h ''0.0'' = Some z \<and> Sprintf_0f h z = ''0'' \<longrightarrow>
              (field 2 line = ''degrees C'' \<longrightarrow>
                 scanLine h (rpmMap, thermals) line = (rpmMap, thermals))
              \<and> (field 2 line = ''CFM'' \<longrightarrow>
                 scanLine h (rpmMap, thermals) line =
                   (rpmMap, thermals @ [\<lparr>ThermalStatus.Name = field 0 line,
                                          Value = ''0 CFM''\<rparr>])))
         \<and> snd (foldl (scanLine h) (rpmMap, thermals) lines) =
             thermals @ concat (map (\<lambda>l. snd (scanLine h (Map.empty, []) l)) lines)"
proof -
  have row: "scanLine h (rpmMap, thermals) line =
           (rpmMap,
            if cleanVal h (field 1 line) = ''0'' \<and> cleanUnit (field 2 line) = degC
            then thermals
            else thermals @ [\<lparr>ThermalStatus.Name = field 0 line,
                               Value = cleanVal h (field 1 line) @ '' ''
                                       @ cleanUnit (field 2 line)\<rparr>])"
  proof -
    have a: "TrimSpace line \<noteq> []" "\<not> length (Split line (CHR ''|'')) < 3"
      "\<not> (field 1 line = ''na'' \<and> \<not> has_word ''FAN'' line)"
      "\<not> (has_word ''FAN'' line \<and> \<not> has_word ''POWER'' line)"
      "has_word ''TEMP'' line \<or> has_word ''AIRFLOW'' line"
      using assms by (auto simp: thermal_row_def)
    show ?thesis
      by (simp only: scanLine_unfold a if_False if_True cleanVal_def cleanUnit_def Let_def
          split: if_splits) simp
  qed
  have cfm: "''CFM'' \<noteq> degC" "''CFM'' \<noteq> ''degrees C''" by (simp_all add: degC_def)
  show ?thesis
    using row cfm foldl_scanLine_thermals [of h rpmMap thermals lines]
    by (simp add: cleanVal_def cleanUnit_def)
qed

lemma sample_thermal_rows:
  "thermal_row ''CPU1 Temp | 0.0 | degrees C | ok''"
  "field 1 ''CPU1 Temp | 0.0 | degrees C | ok'' = ''0.0''"
  "field 2 ''CPU1 Temp | 0.0 | degrees C | ok'' = ''degrees C''"
  "thermal_row ''Airflow rate | 0.0 | CFM | ok''"
  "field 0 ''Airflow rate | 0.0 | CFM | ok'' = ''Airflow rate''"
  "field 1 ''Airflow rate | 0.0 | CFM | ok'' = ''0.0''"
  "field 2 ''Airflow rate | 0.0 | CFM | ok'' = ''CFM''"
proof -
  have u: "ToUpper ''CPU1 Temp | 0.0 | degrees C | ok'' = ''CPU1 TEMP | 0.0 | DEGREES C | OK''"
    "ToUpper ''Airflow rate | 0.0 | CFM | ok'' = ''AIRFLOW RATE | 0.0 | CFM | OK''"
    by (simp_all add: upper_byte_def)
  show "thermal_row ''CPU1 Temp | 0.0 | degrees C | ok''"
    "field 1 ''CPU1 Temp | 0.0 | degrees C | ok'' = ''0.0''"
    "field 2 ''CPU1 Temp | 0.0 | degrees C | ok'' = ''degrees C''"
    "thermal_row ''Airflow rate | 0.0 | CFM | ok''"
    "field 0 ''Airflow rate | 0.0 | CFM | ok'' = ''Airflow rate''"
    "field 1 ''Airflow rate | 0.0 | CFM | ok'' = ''0.0''"
    "field 2 ''Airflow rate | 0.0 | CFM | ok'' = ''CFM''"
    by (simp_all add: thermal_row_def eval_fields has_word_upper [OF u(1)] has_word_upper [OF u(2)])
qed

theorem scanLine_thermal_witness:
  "thermal_row ''CPU1 Temp | 0.0 | degrees C | ok''
   \<and> thermal_row ''Airflow rate | 0.0 | CFM | ok''
   \<and> ParseFloat sample_host ''0.0'' = Some 0 \<and> Sprintf_0f sample_host 0 = ''0''
   \<and> scanLine sample_host (Map.empty, []) ''CPU1 Temp | 0.0 | degrees C | ok'' = (Map.empty, [])
   \<and> scanLine sample_host (Map.empty, []) ''Airflow rate | 0.0 | CFM | ok'' =
       (Map.empty, [\<lparr>ThermalStatus.Name = ''Airflow rate'', Value = ''0 CFM''\<rparr>])
   \<and> snd (foldl (scanLine sample_host) (Map.empty, [])
             [''PCH Temp | 41 | degrees C | ok'', ''CPU1 Temp | 0.0 | degrees C | ok'',
              ''Airflow rate | 0.0 | CFM | ok'']) =
       [\<lparr>ThermalStatus.Name = ''PCH Temp'', Value = ''41 '' @ degC\<rparr>,
        \<lparr>ThermalStatus.Name = ''Airflow rate'', Value = ''0 CFM''\<rparr>]"
proof -
  have p: "ParseFloat sample_host ''0.0'' = Some 0" "Sprintf_0f sample_host 0 = ''0''"
    by (simp_all add: eval_float)
  show ?thesis
    using scanLine_thermal [OF sample_thermal_rows(1), of sample_host Map.empty "[]" "''0.0''" 0
        "''CFM''" 0
        "[''PCH Temp | 41 | degrees C | ok'', ''CPU1 Temp | 0.0 | degrees C | ok'',
          ''Airflow rate | 0.0 | CFM | ok'']"]
      scanLine_thermal [OF sample_thermal_rows(4), of sample_host Map.empty "[]" "''0.0''" 0
        "''CFM''" 0 "[]"]
      sample_thermal_rows p
    by (simp add: sample_row_temp sample_row_temp0 sample_row_airflow)
qed

subsection \<open>The sample host\<close>

lemma sample_read:
  "tool sample_host n read_command = Succeeded sample_pwm_output"
  by (simp add: sample_host_def sample_tool_def)

lemma sample_sensor:
  "tool sample_host n sensor_command =
     Succeeded sample_sensor_output"
  by (simp add: sample_host_def sample_tool_def read_command_def sensor_command_def)

lemma sample_write: "tool sample_host n (write_command fid v) = Succeeded []"
  by (simp add: sample_host_def sample_tool_def read_command_def sensor_command_def
      write_command_def)

lemma sample_Fields:
  "Fields sample_pwm_output = [''00'', ''32'', ''46'', ''ff'', ''zz'', ''1e'', ''64'']"
  by (simp add: sample_pwm_output_def Fields_def nl_def white_space_def)

lemma sample_lines:
  "Split sample_sensor_output (CHR 0x0A) =
     [''System Fan1 | 1558.000 | RPM | ok'', ''CPU Fan1 | na | RPM | na'',
      ''CPU1 Temp | 0.0 | degrees C | ok'', ''PCH Temp | 41 | degrees C | ok'',
      ''Airflow rate | 0.0 | CFM | ok'', []]"
  by (simp add: sample_sensor_output_def Split_def nl_def)

lemma sample_scan:
  "foldl (scanLine sample_host) (Map.empty, []) (Split sample_sensor_output (CHR 0x0A)) =
   (Map.empty(''System Fan1'' \<mapsto> ''1558.000 RPM''),
    [\<lparr>ThermalStatus.Name = ''PCH Temp'', Value = ''41 '' @ degC\<rparr>,
     \<lparr>ThermalStatus.Name = ''Airflow rate'', Value = ''0 CFM''\<rparr>])"
  unfolding sample_lines
  by (simp add: sample_row_fan sample_row_fan_na sample_row_temp0 sample_row_temp
      sample_row_airflow sample_row_blank)

lemma sample_percent:
  "hexToPercent ''32'' = ''50%''" "hexToPercent ''46'' = ''70%''" "hexToPercent ''ff'' = ''255%''"
  "hexToPercent ''zz'' = ''N/A''" "hexToPercent ''1e'' = ''30%''" "hexToPercent ''64'' = ''100%''"
  by (simp_all add: hexToPercent_def ParseInt_def ParseUint_def digit_val_def byte_def
      maxUint64_def fmt_d_def fmt_int_def fmt_nat.simps digit_char_def)

lemma sample_pwms:
  "fst (getPWMs sample_host w) =
     map_of (zip fanNames [''50%'', ''70%'', ''255%'', ''N/A'', ''30%'', ''100%''])"
  using getPWMs_full [where h = sample_host and w = w, OF sample_read]
  by (simp add: sample_Fields sample_percent)

lemma sample_status:
  "added init_world (getStatus sample_host asJson init_world) =
     [Invoke InGetPWMs read_command (Succeeded sample_pwm_output),
      Invoke InGetStatus sensor_command
        (Succeeded sample_sensor_output),
      Render asJson
        \<lparr>Fans =
           [\<lparr>Name = ''System Fan1'', RPM = ''1558.000 RPM'', PWM = ''50%''\<rparr>,
            \<lparr>Name = ''System Fan2'', RPM = ''N/A'', PWM = ''70%''\<rparr>,
            \<lparr>Name = ''System Fan3'', RPM = ''N/A'', PWM = ''255%''\<rparr>,
            \<lparr>Name = ''System Fan4'', RPM = ''N/A'', PWM = ''N/A''\<rparr>,
            \<lparr>Name = ''CPU Fan1'', RPM = ''N/A'', PWM = ''30%''\<rparr>,
            \<lparr>Name = ''CPU Fan2'', RPM = ''N/A'', PWM = ''100%''\<rparr>],
         Thermals =
           [\<lparr>ThermalStatus.Name = ''PCH Temp'', Value = ''41 '' @ degC\<rparr>,
            \<lparr>ThermalStatus.Name = ''Airflow rate'', Value = ''0 CFM''\<rparr>]\<rparr>]"
  by (simp add: getStatus_eq Let_def sample_sensor sample_read sample_pwms getPWMs_world
      sample_scan added_def fanNames_def fanEntry_def lookup_def init_world_def)

lemma blind_tool:
  "tool blind_host n read_command = Failed ''exit status 1'' ''Unable to send RAW command''"
  "tool blind_host n sensor_command = tool sample_host n sensor_command"
  by (simp_all add: blind_host_def sample_host_def read_command_def sensor_command_def)

theorem getStatus_six_fans_witness:
  "tool sample_host (Suc (ncalls init_world)) sensor_command =
     Succeeded sample_sensor_output
   \<and> (\<exists>report. last (added init_world (getStatus sample_host False init_world))
                  = Render False report
               \<and> map Name (Fans report) =
                   [''System Fan1'', ''System Fan2'', ''System Fan3'', ''System Fan4'',
                    ''CPU Fan1'', ''CPU Fan2''])
   \<and> tool blind_host (ncalls init_world) read_command =
       Failed ''exit status 1'' ''Unable to send RAW command''
   \<and> (\<exists>report. last (added init_world (getStatus blind_host True init_world))
                  = Render True report
               \<and> map Name (Fans report) =
                   [''System Fan1'', ''System Fan2'', ''System Fan3'', ''System Fan4'',
                    ''CPU Fan1'', ''CPU Fan2'']
               \<and> (\<forall>f \<in> set (Fans report). PWM f = ''N/A''))"
proof -
  obtain r1 where r1:
    "added init_world (getStatus sample_host False init_world) =
       [Invoke InGetPWMs read_command (tool sample_host (ncalls init_world) read_command),
        Invoke InGetStatus sensor_command (tool sample_host (Suc (ncalls init_world)) sensor_command),
        Render False r1]"
    "map Name (Fans r1) =
       [''System Fan1'', ''System Fan2'', ''System Fan3'', ''System Fan4'',
        ''CPU Fan1'', ''CPU Fan2'']"
    using getStatus_six_fans [where h = sample_host and w = init_world and asJson = False,
        OF sample_sensor] sample_sensor by auto
  have b: "tool blind_host (Suc (ncalls init_world)) sensor_command =
           tool sample_host (Suc (ncalls init_world)) sensor_command"
    by (rule blind_tool)
  obtain r2 where r2:
    "added init_world (getStatus blind_host True init_world) =
       [Invoke InGetPWMs read_command (tool blind_host (ncalls init_world) read_command),
        Invoke InGetStatus sensor_command (tool sample_host (Suc (ncalls init_world)) sensor_command),
        Render True r2]"
    "map Name (Fans r2) =
       [''System Fan1'', ''System Fan2'', ''System Fan3'', ''System Fan4'',
        ''CPU Fan1'', ''CPU Fan2'']"
    "\<forall>f \<in> set (Fans r2). PWM f = ''N/A''"
    using getStatus_six_fans [where h = blind_host and w = init_world and asJson = True,
        OF b [unfolded sample_sensor]] blind_tool(1) sample_sensor
    by auto
  show ?thesis
    using r1 r2 sample_sensor blind_tool(1) by auto
qed

subsection \<open>How a run ends\<close>

lemma quiet_refl: "quiet w w"
  by (simp add: quiet_def)

lemma quiet_trans: "quiet w w1 \<Longrightarrow> quiet w1 w2 \<Longrightarrow> quiet w w2"
  by (auto simp: quiet_def)

lemma quiet_emit_Print: "quiet w (emit (Print s) w)"
  by (simp add: quiet_def fatal_def)

lemma quiet_println: "quiet w (println s w)"
  by (simp add: quiet_def fatal_def)

lemma quiet_emit_Render: "quiet w (emit (Render b r) w)"
  by (simp add: quiet_def fatal_def)

lemma quiet_getPWMs: "quiet w (snd (getPWMs h w))"
  by (cases "tool h (ncalls w) read_command") (simp_all add: getPWMs_world quiet_def fatal_def)

lemma quiet_getStatus: "quiet w (getStatus h asJson w)"
  by (cases "tool h (Suc (ncalls w)) sensor_command";
      cases "tool h (ncalls w) read_command")
     (simp_all add: getStatus_eq Let_def getPWMs_world quiet_def fatal_def)

lemma quiet_saveSpeeds: "quiet w (snd (saveSpeeds orig l (saved, w)))"
proof (induction l arbitrary: saved w)
  case Nil
  then show ?case by (simp add: quiet_refl)
next
  case (Cons p l)
  obtain name fid where p: "p = (name, fid)" by (cases p)
  show ?case
    unfolding p
    using Cons.IH quiet_trans [OF quiet_emit_Print Cons.IH]
    by (simp add: Let_def)
qed

lemma quiet_usage: "quiet w (usage w)"
  unfolding usage_def
  by (intro quiet_trans [OF _ quiet_println] quiet_println)

lemma run_ok_Returned: "quiet w w' \<Longrightarrow> run_ok w (Returned, w')"
  by (auto simp: run_ok_def quiet_def)

lemma run_ok_after: "quiet w w1 \<Longrightarrow> run_ok w1 r \<Longrightarrow> run_ok w r"
  by (auto simp: run_ok_def quiet_def split: outcome.splits)

lemma run_ok_and_then:
  assumes "run_ok w r" "\<And>w'. run_ok w' (f w')"
  shows "run_ok w (and_then r f)"
proof (cases r)
  case (Pair out w1)
  show ?thesis
  proof (cases out)
    case Returned
    then have "quiet w w1" using assms(1) Pair by (auto simp: run_ok_def quiet_def)
    then show ?thesis
      using run_ok_after [OF _ assms(2) [of w1]] Pair Returned by (simp add: and_then_def)
  next
    case (Exited c)
    then show ?thesis using assms(1) Pair by (simp add: and_then_def)
  qed
qed

lemma run_ok_setSpeed: "run_ok w (setSpeed h idStr speedStr w)"
proof (cases "\<exists>v. int_literal 10 speedStr = Some v \<and> 0 \<le> v \<and> v \<le> 100")
  case True
  then obtain v where v: "int_literal 10 speedStr = Some v" "0 \<le> v" "v \<le> 100" by auto
  show ?thesis
    by (cases "tool h (ncalls w) (write_command (formattedID idStr) v)")
       (simp_all add: setSpeed_accept [OF v] Let_def run_ok_def fatal_def)
next
  case False
  then show ?thesis by (simp add: setSpeed_reject run_ok_Returned quiet_println)
qed

lemma run_ok_getSpeed: "run_ok w (getSpeed h idStr w)"
proof (cases "\<exists>v. int_literal 10 idStr = Some v \<and> 1 \<le> v \<and> v \<le> 6")
  case True
  then obtain v where v: "int_literal 10 idStr = Some v" "1 \<le> v" "v \<le> 6" by auto
  show ?thesis
    by (cases "tool h (ncalls w) read_command")
       (simp_all add: getSpeed_accept [OF v] Let_def run_ok_def fatal_def)
next
  case False
  then show ?thesis
    using getSpeed_all [of idStr h w] getSpeed_reject [of idStr h w]
    by (cases "for_all idStr") (simp_all add: run_ok_Returned quiet_println)
qed

lemma restoreSpeeds_and_then:
  "restoreSpeeds h ((fid, speed) # rest) w =
   and_then (setSpeed h fid speed w) (restoreSpeeds h rest)"
  by (simp add: and_then_def split: prod.splits outcome.splits)

lemma run_ok_restoreSpeeds: "run_ok w (restoreSpeeds h l w)"
proof (induction l arbitrary: w)
  case Nil
  then show ?case by (simp add: run_ok_Returned quiet_refl)
next
  case (Cons p l)
  obtain fid speed where p: "p = (fid, speed)" by (cases p)
  show ?case
    unfolding p restoreSpeeds_and_then
    by (rule run_ok_and_then [OF run_ok_setSpeed Cons.IH])
qed

lemma testrun_and_then:
  "testrun h w =
   (let w0 = println ''[STEP 0] Saving current fan speeds...''
               (println ''--- STARTING AUTOMATED TEST SEQUENCE ---'' w);
        originalPWMs = fst (getPWMs h w0);
        saved = saveSpeeds originalPWMs (range_fanIDs h) (Map.empty, snd (getPWMs h w0));
        w3 = println (nl @ ''[STEP 1] Testing 'set all' command (setting to 40%)...'') (snd saved)
    in and_then (setSpeed h ''all'' ''40'' w3)
         (\<lambda>w4. and_then
                  (getSpeed h ''01''
                     (println (nl @ ''[STEP 2] Testing 'get' command for Fan 01...'') w4))
                  (\<lambda>w5. and_then
                           (restoreSpeeds h (saved_entries h (fst saved))
                              (println (nl @ ''[STEP 4] Restoring original fan speeds...'')
                                 (getStatus h False
                                    (println (nl @ ''[STEP 3] Displaying full status dashboard...'')
                                       w5))))
                           (\<lambda>w8. (Returned, println (nl @ ''--- TEST SEQUENCE COMPLETE ---'') w8)))))"
  by (simp only: testrun_def and_then_def Let_def case_prod_beta)

lemma run_ok_testrun: "run_ok w (testrun h w)"
proof -
  define w0 where "w0 = println ''[STEP 0] Saving current fan speeds...''
               (println ''--- STARTING AUTOMATED TEST SEQUENCE ---'' w)"
  define saved where
    "saved = saveSpeeds (fst (getPWMs h w0)) (range_fanIDs h) (Map.empty, snd (getPWMs h w0))"
  define w3 where
    "w3 = println (nl @ ''[STEP 1] Testing 'set all' command (setting to 40%)...'') (snd saved)"
  have q0: "quiet w w0"
    unfolding w0_def by (rule quiet_trans [OF quiet_println quiet_println])
  have q2: "quiet w0 (snd saved)"
    unfolding saved_def
    by (rule quiet_trans [OF quiet_getPWMs [of w0 h] quiet_saveSpeeds])
  have q3: "quiet w w3"
    unfolding w3_def by (rule quiet_trans [OF quiet_trans [OF q0 q2] quiet_println])
  have last: "run_ok w' (Returned, println s w')" for w' s
    by (rule run_ok_Returned [OF quiet_println])
  have rest: "run_ok w5
      (and_then (restoreSpeeds h l (println s2 (getStatus h False (println s1 w5))))
         (\<lambda>w8. (Returned, println s3 w8)))" for w5 l s1 s2 s3
    by (rule run_ok_after [OF quiet_trans [OF quiet_trans [OF quiet_println quiet_getStatus]
            quiet_println]
          run_ok_and_then [OF run_ok_restoreSpeeds last]])
  have get: "run_ok w4
      (and_then (getSpeed h ''01'' (println s0 w4))
         (\<lambda>w5. and_then (restoreSpeeds h l (println s2 (getStatus h False (println s1 w5))))
                  (\<lambda>w8. (Returned, println s3 w8))))" for w4 l s0 s1 s2 s3
    by (rule run_ok_after [OF quiet_println run_ok_and_then [OF run_ok_getSpeed rest]])
  show ?thesis
    unfolding testrun_and_then Let_def w0_def [symmetric] saved_def [symmetric] w3_def [symmetric]
    by (rule run_ok_after [OF q3 run_ok_and_then [OF run_ok_setSpeed get]])
qed

lemma run_ok_main: "lookPath h \<Longrightarrow> run_ok init_world (main h args)"
  by (simp add: main_def run_ok_Returned quiet_usage quiet_getStatus quiet_println
      quiet_emit_Print run_ok_getSpeed run_ok_setSpeed run_ok_testrun)

text \<open>
  C9. The process ends with status 0 or 1. It ends with 1 exactly when the tool is not found
  on the search path at startup, or a run of the tool made by \<open>getSpeed\<close> or \<open>setSpeed\<close>
  fails (also inside \<open>testrun\<close>); otherwise \<open>main\<close> returns, with status 0: on success, and
  on bad arguments, which only print a message.
\<close>

theorem exit_status:
  "(exit_code (fst (main h args)) = 0 \<or> exit_code (fst (main h args)) = 1)
   \<and> (exit_code (fst (main h args)) = 1 \<longleftrightarrow>
        \<not> lookPath h \<or> (\<exists>e \<in> set (events (snd (main h args))). fatal e))
   \<and> (\<not> lookPath h \<longrightarrow> \<not> (\<exists>e \<in> set (events (snd (main h args))). is_invoke e))"
proof (cases "lookPath h")
  case False
  then show ?thesis
    by (simp add: main_def exit_code_def init_world_def is_invoke_def)
next
  case True
  obtain es where es: "events (snd (main h args)) = es"
    "case fst (main h args) of Returned \<Rightarrow> \<not> list_ex fatal es
       | Exited c \<Rightarrow> c = 1 \<and> list_ex fatal es"
    using run_ok_main [OF True, of args] by (auto simp: run_ok_def init_world_def)
  show ?thesis
    using True es
    by (cases "fst (main h args)") (auto simp: exit_code_def list_ex_iff)
qed

theorem exit_status_witness:
  "exit_code (fst (main sample_host [''rd450x-fan-control'', ''set'', ''all'', ''30''])) = 0
   \<and> exit_code (fst (main sample_host [''rd450x-fan-control'', ''get'', ''07''])) = 0
   \<and> exit_code (fst (main sample_host [''rd450x-fan-control''])) = 0
   \<and> exit_code (fst (main failing_host [''rd450x-fan-control'', ''set'', ''all'', ''30''])) = 1
   \<and> exit_code (fst (main failing_host [''rd450x-fan-control'', ''get'', ''01''])) = 1
   \<and> exit_code (fst (main failing_host [''rd450x-fan-control'', ''status''])) = 0
   \<and> exit_code (fst (main (sample_host\<lparr>lookPath := False\<rparr>) [''rd450x-fan-control'', ''status''])) = 1"
proof -
  have l: "lookPath sample_host" "lookPath failing_host" "\<not> lookPath (sample_host\<lparr>lookPath := False\<rparr>)"
    by (simp_all add: sample_host_def failing_host_def)
  have t: "tool failing_host n c = Failed ''exit status 1'' ''Could not open device''" for n c
    by (simp add: failing_host_def sample_host_def)
  have v: "int_literal 10 ''30'' = Some 30" "int_literal 10 ''01'' = Some 1"
    "int_literal 10 ''07'' = Some 7"
    by (simp_all add: int_literal_def is_digits_def digits_val_def digit_val_def byte_def)
  have a: "for_all ''all''" "\<not> for_all ''07''" by (simp_all add: for_all_iff)
  have e1: "events (snd (main sample_host [''rd450x-fan-control'', ''set'', ''all'', ''30''])) =
            [Invoke InSetSpeed (write_command ''00'' 30) (Succeeded []),
             Print (''All fans successfully set to '' @ fmt_d 30 @ ''%'' @ nl)]"
    using l a by (simp add: main_def setSpeed_accept [OF v(1)] Let_def sample_write
        formattedID_def init_world_def)
  have e2: "events (snd (main sample_host [''rd450x-fan-control'', ''get'', ''07''])) =
            [Print (''Error: Fan ID must be between 01 and 06'' @ nl)]"
    using l a v by (simp add: main_def getSpeed_reject init_world_def)
  have e3: "events (snd (main sample_host [''rd450x-fan-control''])) =
            [Print (''Usage:'' @ nl), Print (''  rd450x-fan-control status [--json]'' @ nl),
             Print (''  rd450x-fan-control get <id>'' @ nl),
             Print (''  rd450x-fan-control set <id|all> <speed>'' @ nl)]"
    using l by (simp add: main_def usage_def init_world_def)
  have e4: "events (snd (main failing_host [''rd450x-fan-control'', ''set'', ''all'', ''30''])) =
            [Invoke InSetSpeed (write_command ''00'' 30)
               (Failed ''exit status 1'' ''Could not open device''),
             Print (''IPMI Error: exit status 1: Could not open device'' @ nl)]"
    using l a by (simp add: main_def setSpeed_accept [OF v(1)] Let_def t formattedID_def
        init_world_def)
  have e5: "events (snd (main failing_host [''rd450x-fan-control'', ''get'', ''01''])) =
            [Invoke InGetSpeed read_command (Failed ''exit status 1'' ''Could not open device''),
             Print (''IPMI Error: exit status 1: Could not open device'' @ nl)]"
    using l by (simp add: main_def getSpeed_accept [OF v(2)] Let_def t init_world_def)
  have e6: "events (snd (main failing_host [''rd450x-fan-control'', ''status''])) =
            [Invoke InGetPWMs read_command (Failed ''exit status 1'' ''Could not open device''),
             Invoke InGetStatus sensor_command (Failed ''exit status 1'' ''Could not open device''),
             Print (''Error fetching sensor data: exit status 1'' @ nl)]"
    using l by (simp add: main_def getStatus_eq Let_def getPWMs_world t init_world_def)
  show ?thesis
    using exit_status [of sample_host "[''rd450x-fan-control'', ''set'', ''all'', ''30'']"]
      exit_status [of sample_host "[''rd450x-fan-control'', ''get'', ''07'']"]
      exit_status [of sample_host "[''rd450x-fan-control'']"]
      exit_status [of failing_host "[''rd450x-fan-control'', ''set'', ''all'', ''30'']"]
      exit_status [of failing_host "[''rd450x-fan-control'', ''get'', ''01'']"]
      exit_status [of failing_host "[''rd450x-fan-control'', ''status'']"]
      exit_status [of "sample_host\<lparr>lookPath := False\<rparr>" "[''rd450x-fan-control'', ''status'']"]
      l
    unfolding e1 e2 e3 e4 e5 e6
    by (auto simp: fatal_def)
qed

subsection \<open>Printing a number and reading it back\<close>

lemma digit_val_digit_char: "d < 16 \<Longrightarrow> digit_val (digit_char d) = Some d"
proof -
  assume "d < 16"
  then have "d \<in> set [0, 1, 2, 3, 4, 5, 6, 7, 8, 9, 10, 11, 12, 13, 14, 15]"
    by simp arith
  then show ?thesis
    by (auto simp: digit_char_def digit_val_def byte_def)
qed

lemma digits_val_snoc:
  "digits_val base n (ds @ [c]) = digits_val base n ds * base + the (digit_val c)"
  by (simp add: digits_val_def)

lemma fmt_nat_digits:
  "2 \<le> base \<Longrightarrow> base \<le> 16 \<Longrightarrow>
   fmt_nat base n \<noteq> []
   \<and> list_all (\<lambda>c. case digit_val c of None \<Rightarrow> False | Some d \<Rightarrow> d < base) (fmt_nat base n)
   \<and> digits_val base 0 (fmt_nat base n) = n"
proof (induction base n rule: fmt_nat.induct)
  case (1 base n)
  show ?case
  proof (cases "n < base")
    case True
    then have "fmt_nat base n = [digit_char n]" by (simp add: fmt_nat.simps)
    moreover have "digit_val (digit_char n) = Some n"
      using True "1.prems" by (intro digit_val_digit_char) simp
    ultimately show ?thesis using True by (simp add: digits_val_def)
  next
    case False
    then have c: "\<not> (base < 2 \<or> n < base)" using "1.prems" by simp
    have eq: "fmt_nat base n = fmt_nat base (n div base) @ [digit_char (n mod base)]"
      using c by (subst fmt_nat.simps) simp
    have m: "n mod base < base" using "1.prems" by simp
    then have "n mod base < 16" using "1.prems" by linarith
    then have d: "digit_val (digit_char (n mod base)) = Some (n mod base)"
      by (rule digit_val_digit_char)
    show ?thesis
      using "1.IH" [OF c "1.prems"] d m by (simp add: eq digits_val_snoc)
  qed
qed

lemma fmt_nat_is_digits: "is_digits 10 (fmt_nat 10 n)" "digits_val 10 0 (fmt_nat 10 n) = n"
  using fmt_nat_digits [of 10 n] by (simp_all add: is_digits_def)

lemma fmt_nat_hd: "hd (fmt_nat 10 n) \<noteq> CHR ''+''" "hd (fmt_nat 10 n) \<noteq> CHR ''-''"
proof -
  obtain c cs where cs: "fmt_nat 10 n = c # cs"
    using fmt_nat_digits [of 10 n] by (cases "fmt_nat 10 n") auto
  then have "digit_val c \<noteq> None"
    using fmt_nat_digits [of 10 n] by (auto split: option.splits)
  moreover have "digit_val (CHR ''+'') = None" "digit_val (CHR ''-'') = None"
    by (simp_all add: digit_val_def byte_def)
  ultimately show "hd (fmt_nat 10 n) \<noteq> CHR ''+''" "hd (fmt_nat 10 n) \<noteq> CHR ''-''"
    using cs by auto
qed

lemma int_literal_fmt_d:
  assumes "- (2 ^ 63) \<le> v" "v < 2 ^ 63"
  shows "int_literal 10 (fmt_d v) = Some v"
proof (cases "v < 0")
  case True
  have "digits_val 10 0 (fmt_nat 10 (nat (- v))) \<le> 2 ^ 63"
    using assms(1) True by (simp add: fmt_nat_is_digits(2) nat_le_iff)
  then show ?thesis
    using True fmt_nat_is_digits [of "nat (- v)"]
    by (simp add: int_literal_def fmt_d_def fmt_int_def)
next
  case False
  obtain c cs where cs: "fmt_nat 10 (nat v) = c # cs"
    using fmt_nat_digits [of 10 "nat v"] by (cases "fmt_nat 10 (nat v)") auto
  have c: "c \<noteq> CHR ''+''" "c \<noteq> CHR ''-''" using fmt_nat_hd [of "nat v"] cs by simp_all
  have "digits_val 10 0 (c # cs) < 2 ^ 63"
    using assms(2) False fmt_nat_is_digits(2) [of "nat v"] unfolding cs by (simp add: nat_less_iff)
  then show ?thesis
    using False c fmt_nat_is_digits [of "nat v"] unfolding cs
    by (simp add: int_literal_def fmt_d_def fmt_int_def cs)
qed

lemma int_literal_range:
  assumes "int_literal base s = Some v"
  shows "- (2 ^ 63) \<le> v \<and> v < 2 ^ 63"
proof (cases s)
  case Nil
  then show ?thesis using assms by (simp add: int_literal_def)
next
  case (Cons c cs)
  then show ?thesis
    using assms
    by (auto simp: int_literal_def Let_def nat_le_iff nat_less_iff split: if_splits)
qed

lemma TrimSuffix_percent: "TrimSuffix (s @ ''%'') ''%'' = s"
  by (simp add: TrimSuffix_def)

lemma hexToPercent_literal:
  "hexToPercent s = (case int_literal 16 s of None \<Rightarrow> ''N/A'' | Some v \<Rightarrow> fmt_d v @ ''%'')"
proof (cases "ParseInt s 16")
  case (Inl e)
  then have "int_literal 16 s = None" using ParseInt_literal_None [of 16 s] by auto
  then show ?thesis using Inl by (simp add: hexToPercent_def)
next
  case (Inr v)
  then have "int_literal 16 s = Some v" using ParseInt_literal [of 16 s v] by simp
  then show ?thesis using Inr by (simp add: hexToPercent_def)
qed

subsection \<open>The runs of the tool made by setSpeed\<close>

lemma set_calls_append: "set_calls (a @ b) = set_calls a @ set_calls b"
  by (simp add: set_calls_def map_filter_def)

lemma set_calls_simps [simp]:
  "set_calls [] = []"
  "set_calls (Print s # es) = set_calls es"
  "set_calls (Render b r # es) = set_calls es"
  "set_calls (Invoke site c res # es) = (if site = InSetSpeed then c # set_calls es else set_calls es)"
  by (simp_all add: set_calls_def map_filter_def)

lemma extends_refl: "extends w w []"
  by (simp add: extends_def)

lemma extends_trans: "extends w w1 a \<Longrightarrow> extends w1 w2 b \<Longrightarrow> extends w w2 (a @ b)"
  by (auto simp: extends_def set_calls_append)

lemma extends_nil: "extends w w1 [] \<Longrightarrow> extends w1 w2 b \<Longrightarrow> extends w w2 b"
  using extends_trans [of w w1 "[]" w2 b] by simp

lemma extends_nil2: "extends w w1 a \<Longrightarrow> extends w1 w2 [] \<Longrightarrow> extends w w2 a"
  using extends_trans [of w w1 a w2 "[]"] by simp

lemma extends_added: "extends w w' cs \<Longrightarrow> set_calls (added w w') = cs"
  by (auto simp: extends_def added_def)

lemma extends_println: "extends w (println s w) []"
  by (simp add: extends_def)

lemma extends_emit_Print: "extends w (emit (Print s) w) []"
  by (simp add: extends_def)

lemma extends_getPWMs: "extends w (snd (getPWMs h w)) []"
  by (simp add: getPWMs_world extends_def)

lemma extends_getStatus: "extends w (getStatus h asJson w) []"
  by (cases "tool h (Suc (ncalls w)) sensor_command")
     (simp_all add: getStatus_eq Let_def getPWMs_world extends_def)

lemma getPWMs_fst: "ncalls w' = ncalls w \<Longrightarrow> fst (getPWMs h w') = fst (getPWMs h w)"
  by (cases "tool h (ncalls w) read_command")
     (simp_all add: getPWMs_def ipmiRaw_eq read_command_def Let_def)

lemma extends_saveSpeeds: "extends w (snd (saveSpeeds orig l (saved, w))) []"
proof (induction l arbitrary: saved w)
  case Nil
  then show ?case by (simp add: extends_refl)
next
  case (Cons p l)
  obtain name fid where p: "p = (name, fid)" by (cases p)
  show ?case
    unfolding p
    using Cons.IH extends_nil [OF extends_emit_Print Cons.IH]
    by (simp add: Let_def)
qed

lemma extends_getSpeed: "extends w (snd (getSpeed h idStr w)) []"
proof (cases "\<exists>v. int_literal 10 idStr = Some v \<and> 1 \<le> v \<and> v \<le> 6")
  case True
  then obtain v where v: "int_literal 10 idStr = Some v" "1 \<le> v" "v \<le> 6" by auto
  show ?thesis
    by (cases "tool h (ncalls w) read_command")
       (simp_all add: getSpeed_accept [OF v] Let_def extends_def)
next
  case False
  then show ?thesis
    using getSpeed_all [of idStr h w] getSpeed_reject [of idStr h w]
    by (cases "for_all idStr") (simp_all add: extends_println)
qed

lemma extends_setSpeed: "extends w (snd (setSpeed h idStr speedStr w)) (set_call (idStr, speedStr))"
proof (cases "\<exists>v. int_literal 10 speedStr = Some v \<and> 0 \<le> v \<and> v \<le> 100")
  case True
  then obtain v where v: "int_literal 10 speedStr = Some v" "0 \<le> v" "v \<le> 100" by auto
  show ?thesis
    using v
    by (cases "tool h (ncalls w) (write_command (formattedID idStr) v)")
       (simp_all add: setSpeed_accept [OF v] Let_def extends_def set_call_def)
next
  case False
  then have "set_call (idStr, speedStr) = []"
    by (auto simp: set_call_def split: option.splits)
  then show ?thesis using False by (simp add: setSpeed_reject extends_println)
qed

lemma and_then_Returned:
  assumes "fst (and_then r f) = Returned"
  shows "fst r = Returned" "and_then r f = f (snd r)"
  using assms by (cases r; cases "fst r"; simp add: and_then_def)+

lemma extends_restoreSpeeds:
  "fst (restoreSpeeds h l w) = Returned \<Longrightarrow>
   extends w (snd (restoreSpeeds h l w)) (concat (map set_call l))"
proof (induction l arbitrary: w)
  case Nil
  then show ?case by (simp add: extends_refl)
next
  case (Cons p l)
  obtain fid speed where p: "p = (fid, speed)" by (cases p)
  have r: "fst (and_then (setSpeed h fid speed w) (restoreSpeeds h l)) = Returned"
    using Cons.prems unfolding p restoreSpeeds_and_then .
  note s = and_then_Returned [OF r]
  have "fst (restoreSpeeds h l (snd (setSpeed h fid speed w))) = Returned"
    using r s(2) by simp
  then have "extends (snd (setSpeed h fid speed w))
               (snd (restoreSpeeds h l (snd (setSpeed h fid speed w)))) (concat (map set_call l))"
    by (rule Cons.IH)
  then have "extends w (snd (restoreSpeeds h l (snd (setSpeed h fid speed w))))
               (set_call (fid, speed) @ concat (map set_call l))"
    by (rule extends_trans [OF extends_setSpeed])
  then show ?case
    unfolding p restoreSpeeds_and_then s(2) by simp
qed

lemma set_call_all_40: "set_call (''all'', ''40'') = [write_command ''00'' 40]"
  by (simp add: set_call_def int_literal_def is_digits_def digits_val_def digit_val_def byte_def
      formattedID_def for_all_iff)

lemma extends_testrun:
  assumes "fst (testrun h w) = Returned"
  shows "extends w (snd (testrun h w))
           (write_command ''00'' 40 #
            concat (map set_call
              (saved_entries h
                 (fst (saveSpeeds (fst (getPWMs h w)) (range_fanIDs h) (Map.empty, w))))))"
proof -
  define w0 where "w0 = println ''[STEP 0] Saving current fan speeds...''
               (println ''--- STARTING AUTOMATED TEST SEQUENCE ---'' w)"
  define saved where
    "saved = saveSpeeds (fst (getPWMs h w0)) (range_fanIDs h) (Map.empty, snd (getPWMs h w0))"
  define w3 where
    "w3 = println (nl @ ''[STEP 1] Testing 'set all' command (setting to 40%)...'') (snd saved)"
  define r4 where "r4 = setSpeed h ''all'' ''40'' w3"
  define r5 where
    "r5 = getSpeed h ''01''
            (println (nl @ ''[STEP 2] Testing 'get' command for Fan 01...'') (snd r4))"
  define w7 where
    "w7 = println (nl @ ''[STEP 4] Restoring original fan speeds...'')
            (getStatus h False
               (println (nl @ ''[STEP 3] Displaying full status dashboard...'') (snd r5)))"
  define r8 where "r8 = restoreSpeeds h (saved_entries h (fst saved)) w7"
  have t: "testrun h w =
           and_then r4 (\<lambda>w4. and_then
             (getSpeed h ''01''
                (println (nl @ ''[STEP 2] Testing 'get' command for Fan 01...'') w4))
             (\<lambda>w5. and_then
                (restoreSpeeds h (saved_entries h (fst saved))
                   (println (nl @ ''[STEP 4] Restoring original fan speeds...'')
                      (getStatus h False
                         (println (nl @ ''[STEP 3] Displaying full status dashboard...'') w5))))
                (\<lambda>w8. (Returned, println (nl @ ''--- TEST SEQUENCE COMPLETE ---'') w8))))"
    unfolding testrun_and_then Let_def w0_def [symmetric] saved_def [symmetric]
      w3_def [symmetric] r4_def [symmetric] ..
  note a4 = and_then_Returned [OF assms [unfolded t]]
  have t5: "testrun h w = and_then r5 (\<lambda>w5. and_then
                (restoreSpeeds h (saved_entries h (fst saved))
                   (println (nl @ ''[STEP 4] Restoring original fan speeds...'')
                      (getStatus h False
                         (println (nl @ ''[STEP 3] Displaying full status dashboard...'') w5))))
                (\<lambda>w8. (Returned, println (nl @ ''--- TEST SEQUENCE COMPLETE ---'') w8)))"
    unfolding t a4(2) r5_def ..
  note a5 = and_then_Returned [OF assms [unfolded t5]]
  have t8: "testrun h w =
            and_then r8 (\<lambda>w8. (Returned, println (nl @ ''--- TEST SEQUENCE COMPLETE ---'') w8))"
    unfolding t5 a5(2) r8_def w7_def ..
  note a8 = and_then_Returned [OF assms [unfolded t8]]
  have fin: "snd (testrun h w) = println (nl @ ''--- TEST SEQUENCE COMPLETE ---'') (snd r8)"
    unfolding t8 a8(2) by simp
  have same: "fst (getPWMs h w0) = fst (getPWMs h w)"
    by (rule getPWMs_fst) (simp add: w0_def)
  have sv: "fst saved = fst (saveSpeeds (fst (getPWMs h w)) (range_fanIDs h) (Map.empty, w))"
  proof -
    have "fst (saveSpeeds orig l (m, wa)) = fst (saveSpeeds orig l (m, wb))" for orig l m wa wb
    proof (induction l arbitrary: m wa wb)
      case Nil
      then show ?case by simp
    next
      case (Cons p l)
      obtain name fid where p: "p = (name, fid)" by (cases p)
      show ?case unfolding p using Cons.IH by (simp add: Let_def)
    qed
    then show ?thesis unfolding saved_def same by blast
  qed
  have e0: "extends w w0 []"
    unfolding w0_def by (rule extends_nil [OF extends_println extends_println])
  have e2: "extends w0 (snd saved) []"
    unfolding saved_def by (rule extends_nil [OF extends_getPWMs [of w0 h] extends_saveSpeeds])
  have e3: "extends w w3 []"
    unfolding w3_def by (rule extends_nil [OF extends_nil [OF e0 e2] extends_println])
  have e4: "extends w (snd r4) [write_command ''00'' 40]"
    unfolding r4_def
    using extends_nil [OF e3 extends_setSpeed [of w3 h "''all''" "''40''"]]
    by (simp add: set_call_all_40)
  have e5: "extends w (snd r5) [write_command ''00'' 40]"
    unfolding r5_def
    by (rule extends_nil2 [OF e4 extends_nil [OF extends_println extends_getSpeed]])
  have e7: "extends w w7 [write_command ''00'' 40]"
    unfolding w7_def
    by (rule extends_nil2 [OF e5 extends_nil [OF extends_nil [OF extends_println extends_getStatus]
            extends_println]])
  have e8: "extends w (snd r8)
              ([write_command ''00'' 40] @ concat (map set_call (saved_entries h (fst saved))))"
    unfolding r8_def
    by (rule extends_trans [OF e7 extends_restoreSpeeds]) (use a8(1) r8_def in simp)
  show ?thesis
    unfolding fin sv [symmetric]
    using extends_nil2 [OF e8 extends_println] by simp
qed

end
